theory Spec2Isabelle
  imports Complex_Main "HOL-Library.Product_Lexorder" "HOL-Library.Multiset"
begin

section \<open>The OSRM client of route/osrm: data model\<close>

text \<open>
  The embedding follows the Go source of the OSRM client (package \<open>osrm\<close>): the
  client configuration, the cached GET, the table request planner, the stitching of
  the partial matrices, the removal and restoration of zero points, and the polyline
  call.

  A \<open>float64\<close> is modelled as a real number. The client never computes with the
  coordinates or with the matrix cells: it copies them, and compares a coordinate
  or a scale factor with a constant.
\<close>

type_synonym float64 = real

text \<open>
  \<open>measure.Point\<close> is declared in another package as a slice of \<open>float64\<close>; the
  client takes \<open>len(point)\<close>, \<open>point[0]\<close> and \<open>point[1]\<close> of it.
\<close>

type_synonym Point = "float64 list"

type_synonym bytes = string

text \<open>
  Modelled from the spec: the error type of the package (\<open>Error\<close>, built by
  \<open>NewError(msg, isInputError)\<close>) is declared in another file of the package. The spec
  describes it as an error plus a boolean marking it as caused by invalid caller
  input. Every other Go error value (\<open>errors.New\<close>, \<open>fmt.Errorf\<close>, an error of a
  library) is an \<open>OtherError\<close>: the type assertion \<open>err.(Error)\<close> fails on it.
\<close>

datatype error = NewError string bool | OtherError string

fun assertError :: "error \<Rightarrow> (string \<times> bool) option" where
  "assertError (NewError msg input) = Some (msg, input)"
| "assertError (OtherError msg) = None"

fun IsInputError :: "string \<times> bool \<Rightarrow> bool" where
  "IsInputError (msg, input) = input"

fun errorMessage :: "error \<Rightarrow> string" where
  "errorMessage (NewError msg input) = msg"
| "errorMessage (OtherError msg) = msg"

text \<open>
  A Go call either returns its values, returns a non-nil error, or panics (an index
  out of range, a nil dereference).
\<close>

datatype 'a outcome = Returns 'a | Fails error | Panics

fun bind :: "'a outcome \<Rightarrow> ('a \<Rightarrow> 'b outcome) \<Rightarrow> 'b outcome" where
  "bind (Returns x) f = f x"
| "bind (Fails e) f = Fails e"
| "bind Panics f = Panics"

text \<open>
  Modelled from the spec: the cache is the LRU cache of an external library; the
  spec gives it a fixed capacity and least-recently-used eviction, with a lookup
  and a store. The most recently used entry is first in \<open>entries\<close>.
\<close>

record lru =
  capacity :: nat
  entries :: "(string \<times> bytes) list"

definition lru_Get :: "lru \<Rightarrow> string \<Rightarrow> lru \<times> bytes option" where
  "lru_Get l k =
     (case map_of (entries l) k of
        None \<Rightarrow> (l, None)
      | Some v \<Rightarrow> (l\<lparr>entries := (k, v) # filter (\<lambda>e. fst e \<noteq> k) (entries l)\<rparr>, Some v))"

definition lru_Add :: "lru \<Rightarrow> string \<Rightarrow> bytes \<Rightarrow> lru" where
  "lru_Add l k v =
     l\<lparr>entries := take (capacity l) ((k, v) # filter (\<lambda>e. fst e \<noteq> k) (entries l))\<rparr>"

text \<open>
  The \<open>client\<close> struct. The cache is a pointer in the source, nil unless the option
  \<open>WithCache\<close> was given. The HTTP client is part of the library functions below.
\<close>

record client =
  cache :: "lru option"
  host :: string
  removeEmpty :: bool
  snapRadius :: int
  scaleFactor :: float64
  maxTableSize :: int
  useCache :: bool

section \<open>Client configuration\<close>

definition IgnoreEmpty :: "client \<Rightarrow> bool \<Rightarrow> client" where
  "IgnoreEmpty c ignore = c\<lparr>removeEmpty := ignore\<rparr>"

definition SnapRadius :: "client \<Rightarrow> int \<Rightarrow> client \<times> error option" where
  "SnapRadius c radius =
     (if radius < 0 then (c, Some (OtherError ''radius must be >= 0''))
      else (c\<lparr>snapRadius := radius\<rparr>, None))"

definition MaxTableSize :: "client \<Rightarrow> int \<Rightarrow> client \<times> error option" where
  "MaxTableSize c sz =
     (if sz < 1 then (c, Some (OtherError ''max table size must be > 0''))
      else (c\<lparr>maxTableSize := sz\<rparr>, None))"

definition ScaleFactor :: "client \<Rightarrow> float64 \<Rightarrow> client \<times> error option" where
  "ScaleFactor c factor =
     (if factor \<le> 0 then (c, Some (OtherError ''scale factor must be > 0''))
      else (c\<lparr>scaleFactor := factor\<rparr>, None))"

text \<open>The client that \<open>NewClient\<close> builds without options.\<close>

definition NewClient :: "string \<Rightarrow> client" where
  "NewClient h =
     \<lparr>cache = None, host = h, removeEmpty = False, snapRadius = 0,
      scaleFactor = 1, maxTableSize = 100, useCache = False\<rparr>"

section \<open>Removing and restoring zero points\<close>

text \<open>
  The zero test of \<open>deflateZeroes\<close>:
  \<open>len(point) == 0 || (point[0] == 0 && point[1] == 0)\<close>. Go evaluates it from
  left to right and stops as soon as the result is known, so \<open>point[1]\<close> is read
  only when the point is not empty and its first coordinate is zero; on a point
  of length one that read is out of range.
\<close>

definition zeroPoint :: "Point \<Rightarrow> bool outcome" where
  "zeroPoint point =
     (if length point = 0 then Returns True
      else if point ! 0 = 0
        then (if 1 < length point then Returns (point ! 1 = 0) else Panics)
        else Returns False)"

fun deflateZeroes_loop ::
  "nat \<Rightarrow> Point list \<Rightarrow> Point list \<Rightarrow> nat list \<Rightarrow> (Point list \<times> nat list) outcome" where
  "deflateZeroes_loop i [] deflated indices = Returns (deflated, indices)"
| "deflateZeroes_loop i (point # points) deflated indices =
     bind (zeroPoint point) (\<lambda>z.
       if z then deflateZeroes_loop (i + 1) points deflated indices
       else deflateZeroes_loop (i + 1) points (deflated @ [point]) (indices @ [i]))"

definition deflateZeroes :: "Point list \<Rightarrow> (Point list \<times> nat list) outcome" where
  "deflateZeroes points = deflateZeroes_loop 0 points [] []"

text \<open>
  \<open>inflateZeroes\<close>: a \<open>len \<times> len\<close> matrix of zeros, then
  \<open>inflated[oi][oj] = matrix[i][j]\<close> for every pair of positions \<open>i\<close>, \<open>j\<close> of the
  index list. An index out of range panics.
\<close>

fun inflateZeroes_cols ::
  "float64 list list \<Rightarrow> nat \<Rightarrow> nat \<Rightarrow> (nat \<times> nat) list \<Rightarrow> float64 list list
     \<Rightarrow> float64 list list outcome" where
  "inflateZeroes_cols matrix i oi [] inflated = Returns inflated"
| "inflateZeroes_cols matrix i oi ((j, oj) # rest) inflated =
     (if i < length matrix \<and> j < length (matrix ! i)
         \<and> oi < length inflated \<and> oj < length (inflated ! oi)
      then inflateZeroes_cols matrix i oi rest
             (inflated[oi := (inflated ! oi)[oj := matrix ! i ! j]])
      else Panics)"

fun inflateZeroes_rows ::
  "float64 list list \<Rightarrow> nat list \<Rightarrow> (nat \<times> nat) list \<Rightarrow> float64 list list
     \<Rightarrow> float64 list list outcome" where
  "inflateZeroes_rows matrix indices [] inflated = Returns inflated"
| "inflateZeroes_rows matrix indices ((i, oi) # rest) inflated =
     bind (inflateZeroes_cols matrix i oi (enumerate 0 indices) inflated)
       (inflateZeroes_rows matrix indices rest)"

definition inflateZeroes ::
  "float64 list list \<Rightarrow> nat list \<Rightarrow> nat \<Rightarrow> float64 list list outcome" where
  "inflateZeroes matrix indices len =
     inflateZeroes_rows matrix indices (enumerate 0 indices)
       (replicate len (replicate len 0))"

section \<open>Unroutable points\<close>

definition unroutablePoint :: Point where
  "unroutablePoint = [- (143292892 / 1000000), 37683603 / 1000000]"

text \<open>
  \<open>handleUnroutablePoints\<close> keeps a point of exactly two coordinates and puts
  \<open>unroutablePoint\<close> in the place of any other.
\<close>

definition handleUnroutablePoints :: "Point list \<Rightarrow> Point list" where
  "handleUnroutablePoints ps =
     map (\<lambda>point. if length point = 2 then point else unroutablePoint) ps"

section \<open>Library functions\<close>

text \<open>
  The functions of the Go standard library and of the polyline library that the
  client calls are parameters of the embedding. A parsed URL and an HTTP request
  are represented by their text. The transport (\<open>httpClient.Do\<close>) is given the
  number of transport calls made before, so that the backend may answer every
  call differently.
\<close>

record response =
  StatusCode :: int
  Body :: "error + bytes"
  Close :: "error option"

record Step =
  StepGeometry :: string

record Leg =
  Steps :: "Step list"

record Route =
  Geometry :: string
  Legs :: "Leg list"

record RouteResponse =
  RouteCode :: string
  Routes :: "Route list"
  RouteMessage :: string

record lib =
  Sprintf_f :: "float64 \<Rightarrow> string"
  Sprintf_q :: "string \<Rightarrow> string"
  url_Parse :: "string \<Rightarrow> error + string"
  ResolveReference :: "string \<Rightarrow> string \<Rightarrow> string"
  NewRequest :: "string \<Rightarrow> error + string"
  Do :: "nat \<Rightarrow> string \<Rightarrow> error + response"
  sha1_hex :: "string \<Rightarrow> string"
  Unmarshal_route :: "bytes \<Rightarrow> error + RouteResponse"
  DecodeCoords :: "string \<Rightarrow> error + float64 list list"
  EncodeCoords :: "float64 list list \<Rightarrow> string"

text \<open>\<open>strings.Join\<close> and \<open>strconv.Itoa\<close>.\<close>

fun Join :: "string list \<Rightarrow> string \<Rightarrow> string" where
  "Join [] sep = []"
| "Join [x] sep = x"
| "Join (x # y # ys) sep = x @ sep @ Join (y # ys) sep"

function Itoa_nat :: "nat \<Rightarrow> string" where
  "Itoa_nat n =
     (if n < 10 then [''0123456789'' ! n]
      else Itoa_nat (n div 10) @ [''0123456789'' ! (n mod 10)])"
  by pat_completeness auto
termination
  by (relation "measure (\<lambda>n. n)") auto

definition Itoa :: "int \<Rightarrow> string" where
  "Itoa i = (if i < 0 then ''-'' @ Itoa_nat (nat (- i)) else Itoa_nat (nat i))"

section \<open>The cached GET\<close>

definition TableEndpoint :: string where
  "TableEndpoint = ''table''"

definition RouteEndpoint :: string where
  "RouteEndpoint = ''route''"

definition handleErrorStatus :: "response \<Rightarrow> error" where
  "handleErrorStatus resp =
     (case Body resp of
        Inl e \<Rightarrow> e
      | Inr body \<Rightarrow>
          if StatusCode resp = 400
          then NewError (''Error in input data when getting maps: '' @ body) True
          else NewError (''error response from OSRM: '' @ body) False)"

text \<open>
  \<open>get_fetch\<close> is \<open>get\<close> from the parsing of the host on, that is after the cache
  lookup missed or was skipped. The state that \<open>get\<close> changes is the cache of the
  client and the number of transport calls made so far. When \<open>get\<close> returns a
  non-nil error the model gives the error alone.
\<close>

definition get_fetch ::
  "lib \<Rightarrow> client \<Rightarrow> nat \<Rightarrow> string \<Rightarrow> string \<Rightarrow> (client \<times> nat) \<times> bytes outcome" where
  "get_fetch L c calls uri key =
     (case url_Parse L (host c) of
        Inl e \<Rightarrow> ((c, calls), Fails e)
      | Inr h \<Rightarrow>
     (case url_Parse L uri of
        Inl e \<Rightarrow> ((c, calls), Fails e)
      | Inr u \<Rightarrow>
     (case NewRequest L (ResolveReference L h u) of
        Inl e \<Rightarrow> ((c, calls), Fails e)
      | Inr req \<Rightarrow>
     (case Do L calls req of
        Inl e \<Rightarrow> ((c, calls + 1), Fails e)
      | Inr resp \<Rightarrow>
          if StatusCode resp \<noteq> 200
          then ((c, calls + 1), Fails (handleErrorStatus resp))
          else
     (case Body resp of
        Inl e \<Rightarrow> ((c, calls + 1), Fails e)
      | Inr data \<Rightarrow>
          let c' = (if useCache c
                    then c\<lparr>cache := map_option (\<lambda>l. lru_Add l key data) (cache c)\<rparr>
                    else c)
          in (case Close resp of
                Some e \<Rightarrow> ((c', calls + 1), Fails e)
              | None \<Rightarrow> ((c', calls + 1), Returns data)))))))"

definition get ::
  "lib \<Rightarrow> client \<Rightarrow> nat \<Rightarrow> string \<Rightarrow> (client \<times> nat) \<times> bytes outcome" where
  "get L c calls uri =
     (if useCache c
      then (case cache c of
              None \<Rightarrow> ((c, calls), Panics)
            | Some l \<Rightarrow>
                (case lru_Get l (sha1_hex L uri) of
                   (l', Some b) \<Rightarrow> ((c\<lparr>cache := Some l'\<rparr>, calls), Returns b)
                 | (l', None) \<Rightarrow>
                     get_fetch L (c\<lparr>cache := Some l'\<rparr>) calls uri (sha1_hex L uri)))
      else get_fetch L c calls uri [])"

text \<open>
  The public \<open>Get\<close> calls \<open>get\<close>. \<open>GetThrice\<close> is the sequence of three calls with
  the same URI that the cache tests of the package make: it gives the client and
  the number of transport calls after the third call, and the three results.
\<close>

definition Get ::
  "lib \<Rightarrow> client \<Rightarrow> nat \<Rightarrow> string \<Rightarrow> (client \<times> nat) \<times> bytes outcome" where
  "Get L c calls uri = get L c calls uri"

definition GetThrice ::
  "lib \<Rightarrow> client \<Rightarrow> nat \<Rightarrow> string \<Rightarrow> (client \<times> nat) \<times> bytes outcome list" where
  "GetThrice L c calls uri =
     (case Get L c calls uri of (s1, r1) \<Rightarrow>
      (case Get L (fst s1) (snd s1) uri of (s2, r2) \<Rightarrow>
       (case Get L (fst s2) (snd s2) uri of (s3, r3) \<Rightarrow> (s3, [r1, r2, r3]))))"

text \<open>
  \<open>WithCache\<close>: the cache library refuses a size that is not positive and gives
  no cache, and the option ignores that error.
\<close>

definition lru_New :: "int \<Rightarrow> lru option" where
  "lru_New maxItems =
     (if maxItems \<le> 0 then None else Some \<lparr>capacity = nat maxItems, entries = []\<rparr>)"

definition WithCache :: "int \<Rightarrow> client \<Rightarrow> client" where
  "WithCache maxItems c = c\<lparr>useCache := True, cache := lru_New maxItems\<rparr>"

definition DefaultClient :: "string \<Rightarrow> bool \<Rightarrow> client" where
  "DefaultClient h withCache =
     (if withCache then WithCache 100 (NewClient h) else NewClient h)"

section \<open>Planning the table requests\<close>

definition getPath :: "lib \<Rightarrow> string \<Rightarrow> string \<Rightarrow> string outcome" where
  "getPath L endpoint pointsParameter =
     (case url_Parse L (''/'' @ endpoint @ ''/v1/driving/'') of
        Inl e \<Rightarrow> Fails e
      | Inr u \<Rightarrow>
          (case url_Parse L pointsParameter of
             Inl e \<Rightarrow> Fails e
           | Inr pointsURL \<Rightarrow> Returns (ResolveReference L u pointsURL)))"

text \<open>
  \<open>chunkBy\<close>. A chunk size of zero divides by zero in the capacity of the first
  \<open>make\<close>; a negative one gives a negative capacity or slices at a negative
  index: the function panics on both.
\<close>

function chunkBy_loop :: "'a list \<Rightarrow> nat \<Rightarrow> 'a list list \<Rightarrow> 'a list list" where
  "chunkBy_loop items chunkSize chunks =
     (if 0 < chunkSize \<and> chunkSize < length items
      then chunkBy_loop (drop chunkSize items) chunkSize (chunks @ [take chunkSize items])
      else chunks @ [items])"
  by pat_completeness auto
termination
  by (relation "measure (\<lambda>(items, chunkSize, chunks). length items)") auto

definition chunkBy :: "'a list \<Rightarrow> int \<Rightarrow> 'a list list outcome" where
  "chunkBy items chunkSize =
     (if chunkSize \<le> 0 then Panics
      else Returns (chunkBy_loop items (nat chunkSize) []))"

record tableConfig =
  withDistance :: bool
  withDuration :: bool
  parallelRuns :: int
  withApproachCurb :: bool
  withExclude :: "string list"

record request =
  path :: string
  reqRow :: int
  reqColumn :: int

definition pointString :: "lib \<Rightarrow> float64 list \<Rightarrow> string" where
  "pointString L point = Sprintf_f L (point ! 0) @ '','' @ Sprintf_f L (point ! 1)"

text \<open>The body of the two nested iterations of \<open>tableRequests\<close>, for one pair of chunks.\<close>

definition tableRequest ::
  "lib \<Rightarrow> client \<Rightarrow> tableConfig \<Rightarrow> nat \<times> float64 list list \<Rightarrow> nat \<times> float64 list list
     \<Rightarrow> request outcome" where
  "tableRequest L c config pc1 pc2 =
     (let pointChunk1 = snd pc1; pointChunk2 = snd pc2;
          resultingChunk = pointChunk1 @ pointChunk2
      in bind (getPath L TableEndpoint (Join (map (pointString L) resultingChunk) '';''))
        (\<lambda>path0.
          let isDefault = (\<not> withDistance config \<and> \<not> withDuration config);
              annotations =
                (if isDefault \<or> withDuration config then [''duration''] else [])
                @ (if isDefault \<or> withDistance config then [''distance''] else []);
              path1 = (if 1 \<le> length annotations
                       then path0 @ ''?annotations='' @ Join annotations '',''
                       else path0);
              path2 = (if withApproachCurb config
                       then path1 @ ''&approaches=''
                            @ Join (replicate (length resultingChunk) ''curb'') '';''
                       else path1);
              path3 = (if 0 < length (withExclude config)
                       then path2 @ ''&exclude='' @ Join (withExclude config) '',''
                       else path2);
              path4 = (if scaleFactor c \<noteq> 1
                       then path3 @ ''&scale_factor='' @ Sprintf_f L (scaleFactor c)
                       else path3);
              path5 = (if 0 < snapRadius c
                       then path4 @ ''&radiuses=''
                            @ Join (replicate (length resultingChunk) (Itoa (snapRadius c))) '';''
                       else path4);
              indices = map (\<lambda>i. Itoa (int i)) [0..<length resultingChunk]
          in Returns
               \<lparr>path = path5
                   @ ''&sources='' @ Join (take (length pointChunk1) indices) '';''
                   @ ''&destinations='' @ Join (drop (length pointChunk1) indices) '';'',
                reqRow = int (fst pc1),
                reqColumn = int (fst pc2)\<rparr>))"

text \<open>
  The iteration stops at the first error: \<open>collect\<close> gives the results of the bodies
  in order, or the first outcome that is not a return.
\<close>

fun collect :: "'a outcome list \<Rightarrow> 'a list outcome" where
  "collect [] = Returns []"
| "collect (x # xs) = bind x (\<lambda>y. bind (collect xs) (\<lambda>ys. Returns (y # ys)))"

definition convertedPoints :: "Point list \<Rightarrow> float64 list list" where
  "convertedPoints points =
     map (\<lambda>point. [point ! 0, point ! 1]) (handleUnroutablePoints points)"

definition tableRequests ::
  "lib \<Rightarrow> client \<Rightarrow> tableConfig \<Rightarrow> Point list \<Rightarrow> request list outcome" where
  "tableRequests L c config points =
     bind (chunkBy (convertedPoints points) (maxTableSize c)) (\<lambda>pointChunks.
       collect (concat (map (\<lambda>pc1. map (\<lambda>pc2. tableRequest L c config pc1 pc2)
                                       (enumerate 0 pointChunks))
                            (enumerate 0 pointChunks))))"

definition pointsParameters :: "lib \<Rightarrow> Point list \<Rightarrow> string list" where
  "pointsParameters L points = map (pointString L) (handleUnroutablePoints points)"

definition pointsParameter :: "lib \<Rightarrow> Point list \<Rightarrow> string" where
  "pointsParameter L points = Join (pointsParameters L points) '';''"

section \<open>Stitching the partial matrices\<close>

record tableResponse =
  Code :: string
  Message :: string
  Distances :: "float64 list list"
  Durations :: "float64 list list"
  row :: int
  column :: int

text \<open>
  The comparison that \<open>mergeRequests\<close> hands to \<open>sort.Slice\<close>. It is the
  lexicographic order of the pairs (row, column), so the sort is modelled by
  \<open>sort_key\<close> on \<open>responseKey\<close>. The library sort is not stable; responses
  with the same row and column may come out in any order, of which \<open>sort_key\<close>
  gives one.
\<close>

definition less_response :: "tableResponse \<Rightarrow> tableResponse \<Rightarrow> bool" where
  "less_response ri rj =
     (if row ri = row rj then column ri < column rj else row ri < row rj)"

definition responseKey :: "tableResponse \<Rightarrow> int \<times> int" where
  "responseKey r = (row r, column r)"

text \<open>
  The inner iterations of the row-stays branch: the rows of the block are appended
  to the rows \<open>index\<close>, \<open>index + 1\<close>, ... of the merged matrix.
\<close>

fun appendColumns ::
  "float64 list list \<Rightarrow> nat \<Rightarrow> float64 list list \<Rightarrow> float64 list list outcome" where
  "appendColumns merged index [] = Returns merged"
| "appendColumns merged index (r # rs) =
     (if index < length merged
      then appendColumns (merged[index := merged ! index @ r]) (index + 1) rs
      else Panics)"

fun mergeRequests_loop ::
  "tableResponse list \<Rightarrow> tableResponse \<Rightarrow> int \<Rightarrow> nat \<Rightarrow> nat \<Rightarrow> nat \<Rightarrow> nat
     \<Rightarrow> tableResponse outcome" where
  "mergeRequests_loop [] merged subRow disRows disIndex durRows durIndex = Returns merged"
| "mergeRequests_loop (res # rest) merged subRow disRows disIndex durRows durIndex =
     (if row res \<noteq> subRow
      then mergeRequests_loop rest
             (merged\<lparr>Distances := Distances merged @ Distances res,
                     Durations := Durations merged @ Durations res\<rparr>)
             (subRow + 1) disRows (disIndex + disRows) durRows (durIndex + durRows)
      else bind (appendColumns (Distances merged) disIndex (Distances res)) (\<lambda>dis.
           bind (appendColumns (Durations merged) durIndex (Durations res)) (\<lambda>dur.
             mergeRequests_loop rest
               (merged\<lparr>Distances := dis, Durations := dur\<rparr>)
               subRow (length (Distances res)) disIndex (length (Durations res)) durIndex)))"

definition mergeRequests :: "tableResponse list \<Rightarrow> tableResponse outcome" where
  "mergeRequests responses =
     (case sort_key responseKey responses of
        [] \<Rightarrow> Panics
      | first # rest \<Rightarrow> mergeRequests_loop rest first 0 0 0 0 0)"

section \<open>The table call\<close>

record result =
  res :: "tableResponse option"
  err :: "error option"

text \<open>
  The loop that empties the channel into the list of responses and the list of
  errors.
\<close>

fun Table_drain ::
  "result list \<Rightarrow> tableResponse list \<Rightarrow> error list
     \<Rightarrow> (tableResponse list \<times> error list) outcome" where
  "Table_drain [] responses errs = Returns (responses, errs)"
| "Table_drain (r # rs) responses errs =
     (case err r of
        Some e \<Rightarrow> Table_drain rs responses (errs @ [e])
      | None \<Rightarrow>
          (case res r of
             None \<Rightarrow> Panics
           | Some t \<Rightarrow> Table_drain rs (responses @ [t]) errs))"

text \<open>
  The branch \<open>len(errs) > 0\<close> of \<open>Table\<close>. The list of messages is made with
  \<open>len(errs)\<close> empty strings and the messages are appended to it. The loop
  over the errors tests \<open>errs[0]\<close> in every round.
\<close>

definition Table_hasUserErrs :: "error list \<Rightarrow> bool" where
  "Table_hasUserErrs errs =
     foldl (\<lambda>hasUserErrs e.
              (case assertError (errs ! 0) of
                 Some e0 \<Rightarrow> (if IsInputError e0 then True else hasUserErrs)
               | None \<Rightarrow> hasUserErrs))
       False errs"

definition Table_errMsgs :: "error list \<Rightarrow> string list" where
  "Table_errMsgs errs = replicate (length errs) [] @ map errorMessage errs"

definition Table_error :: "error list \<Rightarrow> error" where
  "Table_error errs =
     (if Table_hasUserErrs errs
      then NewError (Join (Table_errMsgs errs) [CHR 0x0A]) True
      else NewError (Join (Table_errMsgs errs) [CHR 0x0A]) False)"

text \<open>
  \<open>Table\<close>, with the options already applied to the configuration. The
  goroutines, the semaphore and the channel are not part of the embedding: what
  the rest of \<open>Table\<close> sees of them is the sequence of results read from the
  channel, one for each request, in the order of arrival. That sequence is the
  parameter \<open>drained\<close>.
\<close>

definition Table ::
  "lib \<Rightarrow> client \<Rightarrow> tableConfig \<Rightarrow> (request list \<Rightarrow> result list) \<Rightarrow> Point list
     \<Rightarrow> (float64 list list \<times> float64 list list) outcome" where
  "Table L c config drained points =
     (if length points = 0
      then Fails (OtherError ''cannot request distances/durations for empty points'')
      else
        bind (if removeEmpty c then deflateZeroes points else Returns (points, []))
          (\<lambda>(points', deflatedIndices).
        bind (tableRequests L c config points') (\<lambda>requests.
        bind (Table_drain (drained requests) [] []) (\<lambda>(responses, errs).
          if 0 < length errs then Fails (Table_error errs)
          else
            bind (mergeRequests responses) (\<lambda>routeResp.
              if removeEmpty c
              then bind (inflateZeroes (Distances routeResp) deflatedIndices (length points))
                     (\<lambda>distances.
                   bind (inflateZeroes (Durations routeResp) deflatedIndices (length points))
                     (\<lambda>durations. Returns (distances, durations)))
              else Returns (Distances routeResp, Durations routeResp))))))"

section \<open>The polyline call\<close>

fun Polyline_steps ::
  "lib \<Rightarrow> nat \<Rightarrow> Step list \<Rightarrow> float64 list list list \<Rightarrow> float64 list list list outcome" where
  "Polyline_steps L i [] decodedLegs = Returns decodedLegs"
| "Polyline_steps L i (steps # rest) decodedLegs =
     (case DecodeCoords L (StepGeometry steps) of
        Inl e \<Rightarrow> Fails e
      | Inr coords \<Rightarrow>
          if i < length decodedLegs
          then Polyline_steps L i rest (decodedLegs[i := decodedLegs ! i @ coords])
          else Panics)"

fun Polyline_legs ::
  "lib \<Rightarrow> nat \<Rightarrow> Leg list \<Rightarrow> float64 list list list \<Rightarrow> float64 list list list outcome" where
  "Polyline_legs L i [] decodedLegs = Returns decodedLegs"
| "Polyline_legs L i (leg # rest) decodedLegs =
     bind (Polyline_steps L i (Steps leg) decodedLegs) (Polyline_legs L (i + 1) rest)"

text \<open>
  \<open>Polyline_decoded\<close> is \<open>Polyline\<close> after the decoding of the body: the test of
  the response code, the first route, the legs.
\<close>

definition Polyline_decoded ::
  "lib \<Rightarrow> Point list \<Rightarrow> RouteResponse \<Rightarrow> (string \<times> string list) outcome" where
  "Polyline_decoded L points routeResp =
     (if RouteCode routeResp \<noteq> ''Ok''
      then Fails (OtherError (''expected '' @ [CHR 0x22] @ ''Ok'' @ [CHR 0x22]
                    @ '' response code; got ''
                    @ Sprintf_q L (RouteCode routeResp)
                    @ '' ('' @ Sprintf_q L (RouteMessage routeResp) @ '')''))
      else (case Routes routeResp of
              [] \<Rightarrow> Panics
            | route # others \<Rightarrow>
                bind (Polyline_legs L 0 (Legs route) (replicate (length points - 1) []))
                  (\<lambda>decodedLegs. Returns (Geometry route, map (EncodeCoords L) decodedLegs))))"

definition Polyline ::
  "lib \<Rightarrow> client \<Rightarrow> nat \<Rightarrow> Point list
     \<Rightarrow> (client \<times> nat) \<times> (string \<times> string list) outcome" where
  "Polyline L c calls points =
     (if length points = 0
      then ((c, calls), Fails (OtherError ''cannot create polyline for empty points''))
      else (case getPath L RouteEndpoint (pointsParameter L points) of
              Fails e \<Rightarrow> ((c, calls), Fails e)
            | Panics \<Rightarrow> ((c, calls), Panics)
            | Returns path0 \<Rightarrow>
                (case get L c calls
                        (path0 @ ''?overview=simplified&steps=true&annotations=false''
                               @ ''&continue_straight=false'') of
                   (s, Fails e) \<Rightarrow> (s, Fails e)
                 | (s, Panics) \<Rightarrow> (s, Panics)
                 | (s, Returns body) \<Rightarrow>
                     (case Unmarshal_route L body of
                        Inl e \<Rightarrow> (s, Fails e)
                      | Inr routeResp \<Rightarrow> (s, Polyline_decoded L points routeResp)))))"

section \<open>Notions used in the statements\<close>

text \<open>
  The positions of the points that \<open>deflateZeroes\<close> keeps: those on which the
  zero test answers no.
\<close>

definition survivors :: "Point list \<Rightarrow> nat list" where
  "survivors ps = filter (\<lambda>k. zeroPoint (ps ! k) = Returns False) [0..<length ps]"

text \<open>
  \<open>url.Parse\<close> accepts the string.
\<close>

definition parses :: "lib \<Rightarrow> string \<Rightarrow> bool" where
  "parses L s = (case url_Parse L s of Inl e \<Rightarrow> False | Inr u \<Rightarrow> True)"

text \<open>
  The pairs (position, index) of an enumerated index list, read as a table from
  the index to its position.
\<close>

definition swapped :: "(nat \<times> nat) list \<Rightarrow> (nat \<times> nat) list" where
  "swapped js = map (\<lambda>p. (snd p, fst p)) js"

text \<open>
  \<open>polyline.DecodeCoords\<close> accepts the geometry of the step; the coordinates of
  a leg are those of its steps, in order.
\<close>

definition decodes :: "lib \<Rightarrow> Step \<Rightarrow> bool" where
  "decodes L st = (case DecodeCoords L (StepGeometry st) of Inl e \<Rightarrow> False | Inr cs \<Rightarrow> True)"

definition decodedSteps :: "lib \<Rightarrow> Step list \<Rightarrow> float64 list list" where
  "decodedSteps L sts =
     concat (map (\<lambda>st. case DecodeCoords L (StepGeometry st) of
                          Inl e \<Rightarrow> [] | Inr cs \<Rightarrow> cs) sts)"

text \<open>
  What is sent for a point, and the block of index \<open>k\<close> of what is sent for a
  point list: the points \<open>k * maxTableSize\<close>, \<open>k * maxTableSize + 1\<close>, ... of
  the list, at most \<open>maxTableSize\<close> of them.
\<close>

definition sentPoint :: "Point \<Rightarrow> Point" where
  "sentPoint p = (if length p = 2 then p else unroutablePoint)"

definition sentBlock :: "client \<Rightarrow> Point list \<Rightarrow> nat \<Rightarrow> Point list" where
  "sentBlock c ps k =
     take (nat (maxTableSize c)) (drop (k * nat (maxTableSize c)) (map sentPoint ps))"

section \<open>Examples: a stand-in for the library, a cut table\<close>

text \<open>
  A concrete library to run the definitions on. \<open>Sprintf_f\<close> is exact on whole
  numbers and on the two coordinates of \<open>unroutablePoint\<close>, \<open>ResolveReference\<close> on a base that ends with a slash and a relative
  reference without dots; every URL parses; the backend answers every request
  with status 200 and the body \<open>ok\<close>, which decodes to a route response with
  code \<open>Ok\<close> and one route of one leg.
\<close>

definition exampleRoute :: RouteResponse where
  "exampleRoute =
     \<lparr>RouteCode = ''Ok'',
      Routes = [\<lparr>Geometry = ''abc'',
                 Legs = [\<lparr>Steps = [\<lparr>StepGeometry = ''a''\<rparr>, \<lparr>StepGeometry = ''bc''\<rparr>]\<rparr>]\<rparr>],
      RouteMessage = []\<rparr>"

definition exampleLib :: lib where
  "exampleLib =
     \<lparr>Sprintf_f = (\<lambda>x. if x = unroutablePoint ! 0 then ''-143.292892''
                         else if x = unroutablePoint ! 1 then ''37.683603''
                         else Itoa \<lfloor>x\<rfloor> @ ''.000000''),
      Sprintf_q = (\<lambda>s. [CHR 0x22] @ s @ [CHR 0x22]),
      url_Parse = (\<lambda>s. Inr s),
      ResolveReference = (\<lambda>base ref. base @ ref),
      NewRequest = (\<lambda>s. Inr s),
      Do = (\<lambda>n s. Inr \<lparr>StatusCode = 200, Body = Inr ''ok'', Close = None\<rparr>),
      sha1_hex = (\<lambda>s. s),
      Unmarshal_route = (\<lambda>b. if b = ''ok'' then Inr exampleRoute
                                else Inl (OtherError ''invalid character'')),
      DecodeCoords = (\<lambda>s. Inr (map (\<lambda>ch. [of_char ch, 0]) s)),
      EncodeCoords = (\<lambda>cs. map (\<lambda>p. char_of (nat \<lfloor>p ! 0\<rfloor>)) cs)\<rparr>"

definition exampleConfig :: tableConfig where
  "exampleConfig =
     \<lparr>withDistance = False, withDuration = False, parallelRuns = 16,
      withApproachCurb = False, withExclude = []\<rparr>"

text \<open>
  Four blocks of a 3 \<times> 3 table cut with a table size of two.
\<close>

definition exampleBlock :: "int \<Rightarrow> int \<Rightarrow> float64 list list \<Rightarrow> float64 list list \<Rightarrow> tableResponse" where
  "exampleBlock r k dis dur =
     \<lparr>Code = ''Ok'', Message = [], Distances = dis, Durations = dur, row = r, column = k\<rparr>"

definition exampleBlocks :: "tableResponse list" where
  "exampleBlocks =
     [exampleBlock 0 0 [[1, 2], [4, 5]] [[10, 20], [40, 50]],
      exampleBlock 0 1 [[3], [6]] [[30], [60]],
      exampleBlock 1 0 [[7, 8]] [[70, 80]],
      exampleBlock 1 1 [[9]] [[90]]]"

declare chunkBy_loop.simps [simp del]

declare Itoa_nat.simps [simp del]

section \<open>Configuration: the validating setters\<close>

text \<open>
  C9. \<open>SnapRadius\<close> returns an error exactly when the radius is negative,
  \<open>ScaleFactor\<close> exactly when the factor is at most zero, \<open>MaxTableSize\<close> exactly
  when the size is below one. When an error is returned the client is unchanged;
  otherwise the new value is stored in its field and no other field changes.
\<close>

theorem C9_setters:
  "(snd (SnapRadius c r) \<noteq> None) = (r < 0)
   \<and> (snd (ScaleFactor c f) \<noteq> None) = (f \<le> 0)
   \<and> (snd (MaxTableSize c s) \<noteq> None) = (s < 1)
   \<and> (snd (SnapRadius c r) \<noteq> None \<longrightarrow> fst (SnapRadius c r) = c)
   \<and> (snd (ScaleFactor c f) \<noteq> None \<longrightarrow> fst (ScaleFactor c f) = c)
   \<and> (snd (MaxTableSize c s) \<noteq> None \<longrightarrow> fst (MaxTableSize c s) = c)
   \<and> (snd (SnapRadius c r) = None \<longrightarrow> fst (SnapRadius c r) = c\<lparr>snapRadius := r\<rparr>)
   \<and> (snd (ScaleFactor c f) = None \<longrightarrow> fst (ScaleFactor c f) = c\<lparr>scaleFactor := f\<rparr>)
   \<and> (snd (MaxTableSize c s) = None \<longrightarrow> fst (MaxTableSize c s) = c\<lparr>maxTableSize := s\<rparr>)"
  by (simp add: SnapRadius_def ScaleFactor_def MaxTableSize_def)

theorem C9_setters_witness:
  "snd (SnapRadius (NewClient ''h'') (-1)) \<noteq> None
   \<and> fst (SnapRadius (NewClient ''h'') (-1)) = NewClient ''h''
   \<and> snd (ScaleFactor (NewClient ''h'') 0) \<noteq> None
   \<and> fst (ScaleFactor (NewClient ''h'') 0) = NewClient ''h''
   \<and> snd (MaxTableSize (NewClient ''h'') 0) \<noteq> None
   \<and> fst (MaxTableSize (NewClient ''h'') 0) = NewClient ''h''
   \<and> snd (SnapRadius (NewClient ''h'') 0) = None
   \<and> snapRadius (fst (SnapRadius (NewClient ''h'') 25)) = 25
   \<and> scaleFactor (fst (ScaleFactor (NewClient ''h'') 2)) = 2
   \<and> maxTableSize (fst (MaxTableSize (NewClient ''h'') 1)) = 1"
  using C9_setters [of "NewClient ''h''" "-1" 0 0]
        C9_setters [of "NewClient ''h''" 0 2 1]
        C9_setters [of "NewClient ''h''" 25 2 1]
  by simp

section \<open>Unroutable points in the coordinate list\<close>

lemma pair_nth_eq: "length (p::'a list) = 2 \<Longrightarrow> [p ! 0, p ! Suc 0] = p"
  by (cases p; cases "tl p") auto

text \<open>
  C7, as stated, fails: a point equal to (0, 0) has two coordinates, so
  \<open>handleUnroutablePoints\<close> keeps it and it is sent as the coordinate
  \<open>0.000000,0.000000\<close>, not as the out-of-service coordinate.
\<close>

theorem C7_zero_point_counterexample:
  "handleUnroutablePoints [[0, 0]] \<noteq> [unroutablePoint]
   \<and> pointsParameters exampleLib [[0, 0]] = [''0.000000,0.000000'']"
  by code_simp

section \<open>The aggregate error of a failed batch\<close>

text \<open>
  What the loop over the errors computes: the batch is classified by its first
  error alone.
\<close>

lemma Table_hasUserErrs_foldl:
  "foldl (\<lambda>h e. (case a of Some e0 \<Rightarrow> (if IsInputError e0 then True else h) | None \<Rightarrow> h))
     b errs
   = (b \<or> (errs \<noteq> [] \<and> (case a of Some e0 \<Rightarrow> IsInputError e0 | None \<Rightarrow> False)))"
  by (induction errs arbitrary: b) (auto split: option.splits)

lemma Table_hasUserErrs_first:
  "Table_hasUserErrs errs
   = (errs \<noteq> [] \<and> (case assertError (errs ! 0) of Some e0 \<Rightarrow> IsInputError e0 | None \<Rightarrow> False))"
  by (simp add: Table_hasUserErrs_def Table_hasUserErrs_foldl)

text \<open>
  C1. A batch with a failed request fails as a whole with one aggregate error,
  and the claim wants that error to be a user-input error as soon as one of the
  collected errors is. The code does not do that: with two points and a table
  size of one there are four requests; when the first collected error is the
  error of a response with status 500 and the three others are errors of
  responses with status 400 (user-input errors), the aggregate error is not
  marked as a user-input error.
\<close>

theorem C1_only_first_error_classifies:
  "assertError (handleErrorStatus \<lparr>StatusCode = 400, Body = Inr ''bad'', Close = None\<rparr>)
     = Some (''Error in input data when getting maps: bad'', True)
   \<and> Table exampleLib ((NewClient ''h'')\<lparr>maxTableSize := 1\<rparr>) exampleConfig
     (\<lambda>requests. map (\<lambda>r. if reqRow r = 0 \<and> reqColumn r = 0
         then \<lparr>res = None, err = Some (handleErrorStatus
                  \<lparr>StatusCode = 500, Body = Inr ''down'', Close = None\<rparr>)\<rparr>
         else \<lparr>res = None, err = Some (handleErrorStatus
                  \<lparr>StatusCode = 400, Body = Inr ''bad'', Close = None\<rparr>)\<rparr>) requests)
     [[1, 1], [2, 2]]
   = Fails (NewError ([CHR 0x0A, CHR 0x0A, CHR 0x0A, CHR 0x0A]
                      @ ''error response from OSRM: down'' @ [CHR 0x0A]
                      @ ''Error in input data when getting maps: bad'' @ [CHR 0x0A]
                      @ ''Error in input data when getting maps: bad'' @ [CHR 0x0A]
                      @ ''Error in input data when getting maps: bad'') False)"
  by code_simp

section \<open>A route response without a route\<close>

text \<open>
  Whatever the points and the library: a decoded response with the code \<open>Ok\<close>
  and an empty list of routes makes the rest of \<open>Polyline\<close> panic.
\<close>

lemma Polyline_decoded_no_route:
  "Polyline_decoded L points (routeResp\<lparr>RouteCode := ''Ok'', Routes := []\<rparr>) = Panics"
  by (simp add: Polyline_decoded_def)

text \<open>
  C2. The claim wants \<open>Polyline\<close> to return an error when the response decodes,
  has the code \<open>Ok\<close> and holds no route. The code takes \<open>routeResp.Routes[0]\<close>
  without a test of the length: on such a response the call panics.
\<close>

theorem C2_no_route_panics:
  "snd (Polyline
          (exampleLib\<lparr>Unmarshal_route :=
              (\<lambda>b. Inr \<lparr>RouteCode = ''Ok'', Routes = [], RouteMessage = []\<rparr>)\<rparr>)
          (NewClient ''h'') 0 [[1, 1], [2, 2]])
   = Panics"
  by code_simp

section \<open>Totality of the removal of zero points\<close>

lemma zeroPoint_cases:
  "zeroPoint p = Panics \<or> zeroPoint p = Returns True \<or> zeroPoint p = Returns False"
  by (simp add: zeroPoint_def)

lemma deflateZeroes_loop_Returns:
  assumes "\<forall>p\<in>set ps. zeroPoint p \<noteq> Panics"
  shows "deflateZeroes_loop i ps d ix
    = Returns (d @ map snd (filter (\<lambda>kp. zeroPoint (snd kp) = Returns False) (enumerate i ps)),
               ix @ map fst (filter (\<lambda>kp. zeroPoint (snd kp) = Returns False) (enumerate i ps)))"
  using assms
proof (induction ps arbitrary: i d ix)
  case Nil
  then show ?case by simp
next
  case (Cons p ps)
  from Cons.prems have np: "zeroPoint p \<noteq> Panics" and rest: "\<forall>q\<in>set ps. zeroPoint q \<noteq> Panics"
    by simp_all
  from np zeroPoint_cases [of p] consider "zeroPoint p = Returns True" | "zeroPoint p = Returns False"
    by blast
  then show ?case
  proof cases
    case 1
    then show ?thesis using Cons.IH [OF rest] by simp
  next
    case 2
    then show ?thesis using Cons.IH [OF rest] by simp
  qed
qed

lemma deflateZeroes_loop_Panics:
  "\<exists>p\<in>set ps. zeroPoint p = Panics \<Longrightarrow> deflateZeroes_loop i ps d ix = Panics"
proof (induction ps arbitrary: i d ix)
  case Nil
  then show ?case by simp
next
  case (Cons p ps)
  show ?case
  proof (cases "zeroPoint p = Panics")
    case True
    then show ?thesis by simp
  next
    case False
    with Cons.prems have "\<exists>q\<in>set ps. zeroPoint q = Panics" by auto
    from Cons.IH [OF this] show ?thesis
      using False zeroPoint_cases [of p] by auto
  qed
qed

lemma enumerate_filter_fst:
  "map fst (filter (\<lambda>kp. P (snd kp)) (enumerate 0 ps)) = filter (\<lambda>k. P (ps ! k)) [0..<length ps]"
proof -
  have e: "enumerate 0 ps = map (\<lambda>k. (k, ps ! k)) [0..<length ps]"
    by (rule nth_equalityI) (simp_all add: nth_enumerate_eq)
  show ?thesis
    unfolding e by (simp add: filter_map comp_def)
qed

lemma enumerate_filter_snd:
  "map snd (filter (\<lambda>kp. P (snd kp)) (enumerate 0 ps)) = map (\<lambda>k. ps ! k) (filter (\<lambda>k. P (ps ! k)) [0..<length ps])"
proof -
  have e: "enumerate 0 ps = map (\<lambda>k. (k, ps ! k)) [0..<length ps]"
    by (rule nth_equalityI) (simp_all add: nth_enumerate_eq)
  show ?thesis
    unfolding e by (simp add: filter_map comp_def)
qed

lemma deflateZeroes_Returns:
  assumes "\<forall>p\<in>set ps. zeroPoint p \<noteq> Panics"
  shows "deflateZeroes ps = Returns (map (\<lambda>k. ps ! k) (survivors ps), survivors ps)"
  unfolding deflateZeroes_def survivors_def deflateZeroes_loop_Returns [OF assms]
  using enumerate_filter_fst [of "\<lambda>p. zeroPoint p = Returns False" ps]
        enumerate_filter_snd [of "\<lambda>p. zeroPoint p = Returns False" ps]
  by simp

lemma zeroPoint_Panics_iff: "zeroPoint p = Panics \<longleftrightarrow> length p = 1 \<and> p ! 0 = 0"
  by (cases p) (auto simp: zeroPoint_def)

lemma zeroPoint_False_iff: "length p = 0 \<or> 2 \<le> length p \<Longrightarrow>
   zeroPoint p = Returns False \<longleftrightarrow> \<not> (length p = 0 \<or> (p ! 0 = 0 \<and> p ! 1 = 0))"
  by (auto simp: zeroPoint_def)

text \<open>
  C10. On a list whose points all have no coordinate or at least two,
  \<open>deflateZeroes\<close> returns: the indices are strictly increasing, they are exactly
  the positions of the points that are neither absent nor (0, 0), and the kept
  points are the points at these indices, in order. On a list that holds the
  point \<open>[0]\<close>, of length one, the zero test reads \<open>point[1]\<close> out of range and
  \<open>deflateZeroes\<close> panics, and so does \<open>Table\<close> when the client ignores empty
  points.
\<close>

theorem C10_deflateZeroes_total:
  "((\<forall>p\<in>set points. length p = 0 \<or> 2 \<le> length p) \<longrightarrow>
     (\<exists>deflated indices.
        deflateZeroes points = Returns (deflated, indices)
        \<and> sorted_wrt (<) indices
        \<and> set indices = {i. i < length points
              \<and> \<not> (length (points ! i) = 0 \<or> (points ! i ! 0 = 0 \<and> points ! i ! 1 = 0))}
        \<and> deflated = map (\<lambda>i. points ! i) indices))
   \<and> ([0] \<in> set points \<longrightarrow>
        deflateZeroes points = Panics
        \<and> (removeEmpty c \<longrightarrow> Table L c config drained points = Panics))"
proof (intro conjI impI)
  assume wf: "\<forall>p\<in>set points. length p = 0 \<or> 2 \<le> length p"
  then have np: "\<forall>p\<in>set points. zeroPoint p \<noteq> Panics"
    by (auto simp: zeroPoint_Panics_iff)
  have s: "sorted_wrt (<) (survivors points)"
    unfolding survivors_def by (rule sorted_wrt_filter) (simp add: sorted_wrt_upt)
  have "set (survivors points) = {i. i < length points
              \<and> \<not> (length (points ! i) = 0 \<or> (points ! i ! 0 = 0 \<and> points ! i ! 1 = 0))}"
    using wf by (auto simp: survivors_def zeroPoint_False_iff)
  with s deflateZeroes_Returns [OF np]
  show "\<exists>deflated indices.
        deflateZeroes points = Returns (deflated, indices)
        \<and> sorted_wrt (<) indices
        \<and> set indices = {i. i < length points
              \<and> \<not> (length (points ! i) = 0 \<or> (points ! i ! 0 = 0 \<and> points ! i ! 1 = 0))}
        \<and> deflated = map (\<lambda>i. points ! i) indices"
    by blast
next
  assume m: "[0] \<in> set points"
  have "zeroPoint [0] = Panics" by (simp add: zeroPoint_def)
  with m have "\<exists>p\<in>set points. zeroPoint p = Panics" by blast
  then show d: "deflateZeroes points = Panics"
    unfolding deflateZeroes_def by (rule deflateZeroes_loop_Panics)
  assume "removeEmpty c"
  moreover from m have "length points \<noteq> 0" by auto
  ultimately show "Table L c config drained points = Panics"
    by (simp add: Table_def d)
qed


theorem C10_deflateZeroes_total_witness:
  "deflateZeroes [[0, 0], [1, 2], []] = Returns ([[1, 2]], [1])
   \<and> [0] \<in> set [[1, 2], [0]]
   \<and> deflateZeroes [[1, 2], [0]] = Panics
   \<and> removeEmpty (IgnoreEmpty (NewClient ''h'') True)
   \<and> Table exampleLib (IgnoreEmpty (NewClient ''h'') True) exampleConfig
        (\<lambda>requests. []) [[1, 2], [0]] = Panics"
  using C10_deflateZeroes_total [where points = "[[0, 0], [1, 2], []]"]
        C10_deflateZeroes_total [where points = "[[1, 2], [0]]"
          and c = "IgnoreEmpty (NewClient ''h'') True" and L = exampleLib
          and config = exampleConfig and drained = "\<lambda>requests. []"]
  by (simp add: deflateZeroes_def zeroPoint_def IgnoreEmpty_def NewClient_def)

section \<open>The number of planned requests\<close>

lemma convertedPoints_pairs:
  "\<forall>p\<in>set points. length p = 2 \<Longrightarrow> convertedPoints points = points"
  by (simp add: convertedPoints_def handleUnroutablePoints_def pair_nth_eq map_idI)

lemma chunkBy_loop_step:
  "0 < b \<Longrightarrow> b < length items \<Longrightarrow>
   chunkBy_loop items b chunks = chunkBy_loop (drop b items) b (chunks @ [take b items])"
  by (subst chunkBy_loop.simps) simp

lemma chunkBy_loop_stop:
  "\<not> b < length items \<Longrightarrow> chunkBy_loop items b chunks = chunks @ [items]"
  by (subst chunkBy_loop.simps) simp

lemma ceil_div_step: "0 < (b::nat) \<Longrightarrow> 0 < n \<Longrightarrow> (n + b - 1) div b = (n - 1) div b + 1"
proof -
  assume b: "0 < b" and n: "0 < n"
  then have "n + b - 1 = (n - 1) + b" by simp
  with b show ?thesis by (simp only: div_add_self2)
qed

lemma chunkBy_loop_concat: "0 < b \<Longrightarrow> concat (chunkBy_loop items b chunks) = concat chunks @ items"
proof (induction items b chunks rule: chunkBy_loop.induct)
  case (1 items b chunks)
  show ?case
  proof (cases "b < length items")
    case True
    then show ?thesis
      using "1.IH" "1.prems" by (simp add: chunkBy_loop_step)
  next
    case False
    then show ?thesis by (simp add: chunkBy_loop_stop)
  qed
qed

lemma chunkBy_loop_length:
  "0 < b \<Longrightarrow> items \<noteq> [] \<Longrightarrow>
   length (chunkBy_loop items b chunks) = length chunks + (length items + b - 1) div b"
proof (induction items b chunks rule: chunkBy_loop.induct)
  case (1 items b chunks)
  from "1.prems" have n: "0 < length items" by simp
  show ?case
  proof (cases "b < length items")
    case True
    with "1.prems" have d: "drop b items \<noteq> []" by simp
    from True have e: "length items - b + b - 1 = length items - 1" by simp
    have "length (chunkBy_loop (drop b items) b (chunks @ [take b items]))
        = length (chunks @ [take b items]) + (length (drop b items) + b - 1) div b"
      using "1.IH" "1.prems"(1) True d by blast
    moreover have "(length items + b - 1) div b = (length items - 1) div b + 1"
      using "1.prems"(1) n by (rule ceil_div_step)
    ultimately show ?thesis
      using True "1.prems"(1) e by (simp add: chunkBy_loop_step)
  next
    case False
    with n have "length items - 1 < b" by arith
    then have "(length items - 1) div b = 0" by (rule div_less)
    moreover have "(length items + b - 1) div b = (length items - 1) div b + 1"
      using "1.prems"(1) n by (rule ceil_div_step)
    ultimately show ?thesis
      using False by (simp add: chunkBy_loop_stop)
  qed
qed

lemma chunkBy_loop_bound:
  "0 < b \<Longrightarrow> items \<noteq> [] \<Longrightarrow> ch \<in> set (chunkBy_loop items b chunks) \<Longrightarrow>
   ch \<in> set chunks \<or> (ch \<noteq> [] \<and> length ch \<le> b)"
proof (induction items b chunks rule: chunkBy_loop.induct)
  case (1 items b chunks)
  show ?case
  proof (cases "b < length items")
    case True
    with "1.prems" have d: "drop b items \<noteq> []" by simp
    from "1.prems"(3) True "1.prems"(1)
    have "ch \<in> set (chunkBy_loop (drop b items) b (chunks @ [take b items]))"
      by (simp add: chunkBy_loop_step)
    with "1.IH" "1.prems"(1) True d
    have "ch \<in> set (chunks @ [take b items]) \<or> (ch \<noteq> [] \<and> length ch \<le> b)" by blast
    with True "1.prems"(1,2) show ?thesis by auto
  next
    case False
    with "1.prems" show ?thesis
      by (auto simp: chunkBy_loop_stop)
  qed
qed


lemma collect_Returns:
  assumes "\<forall>x\<in>set xs. \<exists>y. f x = Returns y \<and> P x y"
  shows "\<exists>ys. collect (map f xs) = Returns ys \<and> list_all2 P xs ys"
  using assms
proof (induction xs)
  case Nil
  then show ?case by simp
next
  case (Cons x xs)
  then obtain y where y: "f x = Returns y" "P x y" by auto
  from Cons obtain ys where ys: "collect (map f xs) = Returns ys" "list_all2 P xs ys" by auto
  from y ys show ?case by simp
qed

lemma getPath_Returns:
  "parses L (''/'' @ endpoint @ ''/v1/driving/'') \<Longrightarrow> parses L s \<Longrightarrow> \<exists>p. getPath L endpoint s = Returns p"
  by (auto simp: getPath_def parses_def split: sum.splits)

lemma tableRequest_Returns:
  assumes "parses L ''/table/v1/driving/''"
      and "parses L (Join (map (pointString L) (snd pc1 @ snd pc2)) '';'')"
  shows "\<exists>r. tableRequest L c config pc1 pc2 = Returns r
            \<and> reqRow r = int (fst pc1) \<and> reqColumn r = int (fst pc2)"
proof -
  from getPath_Returns [of L TableEndpoint, OF _ assms(2)] assms(1)
  obtain p where "getPath L TableEndpoint (Join (map (pointString L) (snd pc1 @ snd pc2)) '';'') = Returns p"
    by (auto simp: TableEndpoint_def)
  then show ?thesis
    by (simp add: tableRequest_def Let_def)
qed


lemma concat_map_product:
  "concat (map (\<lambda>x. map (\<lambda>y. f x y) ys) xs) = map (\<lambda>xy. f (fst xy) (snd xy)) (List.product xs ys)"
  by (induction xs) (simp_all add: comp_def)

lemma product_map_map:
  "List.product (map f xs) (map g ys) = map (\<lambda>xy. (f (fst xy), g (snd xy))) (List.product xs ys)"
  by (induction xs) (simp_all add: comp_def)

lemma list_all2_map_eq:
  "list_all2 (\<lambda>x y. h x = g y) xs ys \<Longrightarrow> map g ys = map h xs"
  by (induction rule: list_all2_induct) simp_all

lemma ceil_div_nat:
  assumes b: "0 < (b::nat)"
  shows "(n + b - 1) div b = nat \<lceil>real n / real b\<rceil>"
proof -
  define q where "q = (n + b - 1) div b"
  have 1: "q * b \<le> n + b - 1" by (simp add: q_def)
  have 2: "n + b - 1 < b + q * b"
    using b unfolding q_def by (rule dividend_less_div_times)
  from 2 b have 3: "n \<le> q * b" by arith
  from 1 b have 4: "q * b < n + b" by arith
  from 3 have "real n \<le> real (q * b)" by (rule of_nat_mono)
  then have u: "real n / real b \<le> of_int (int q)"
    using b by (simp add: pos_divide_le_eq)
  from 4 have "real (q * b) < real (n + b)" by (simp only: of_nat_less_iff)
  then have "(real q - 1) * real b < real n" by (simp add: algebra_simps)
  then have l: "of_int (int q) - 1 < real n / real b"
    using b by (simp add: pos_less_divide_eq)
  from l u have "\<lceil>real n / real b\<rceil> = int q" by (rule ceiling_unique)
  then show ?thesis by (simp add: q_def)
qed

text \<open>
  C5. For a non-empty list of \<open>n\<close> points and a table size \<open>b\<close> of at least
  one, \<open>chunkBy\<close> cuts the coordinate list into \<open>\<lceil>n / b\<rceil>\<close> blocks, none of them
  empty or longer than \<open>b\<close>, whose concatenation is the coordinate list (the
  input itself when every point is a pair), and
  \<open>tableRequests\<close> returns exactly \<open>\<lceil>n / b\<rceil>\<^sup>2\<close> requests: one for each ordered pair
  of blocks, row by row. The hypotheses on the library say that \<open>url.Parse\<close>
  accepts the path prefix and the lists of formatted coordinates. With three
  points and a table size of two there are four requests.
\<close>

theorem C5_tableRequests_count:
  assumes ne: "points \<noteq> []" and b: "1 \<le> maxTableSize c"
      and p0: "parses L ''/table/v1/driving/''"
      and pp: "\<And>pts. parses L (Join (map (pointString L) pts) '';'')"
  shows "\<exists>chunks requests.
      chunkBy (convertedPoints points) (maxTableSize c) = Returns chunks
    \<and> concat chunks = convertedPoints points
    \<and> ((\<forall>p\<in>set points. length p = 2) \<longrightarrow> concat chunks = points)
    \<and> (\<forall>ch\<in>set chunks. ch \<noteq> [] \<and> int (length ch) \<le> maxTableSize c)
    \<and> length chunks = nat \<lceil>real (length points) / real_of_int (maxTableSize c)\<rceil>
    \<and> tableRequests L c config points = Returns requests
    \<and> length requests = (nat \<lceil>real (length points) / real_of_int (maxTableSize c)\<rceil>)\<^sup>2
    \<and> map (\<lambda>r. (reqRow r, reqColumn r)) requests
        = map (\<lambda>ij. (int (fst ij), int (snd ij)))
            (List.product [0..<length chunks] [0..<length chunks])"
proof -
  define n where "n = nat (maxTableSize c)"
  define chunks where "chunks = chunkBy_loop (convertedPoints points) n []"
  define E where "E = enumerate 0 chunks"
  from b have n: "0 < n" by (simp add: n_def)
  from ne have cne: "convertedPoints points \<noteq> []"
    by (simp add: convertedPoints_def handleUnroutablePoints_def)
  have len: "length (convertedPoints points) = length points"
    by (simp add: convertedPoints_def handleUnroutablePoints_def)
  from b have 1: "chunkBy (convertedPoints points) (maxTableSize c) = Returns chunks"
    by (simp add: chunkBy_def chunks_def n_def)
  have 2: "concat chunks = convertedPoints points"
    using n by (simp add: chunks_def chunkBy_loop_concat)
  have inp: "(\<forall>p\<in>set points. length p = 2) \<longrightarrow> concat chunks = points"
    using 2 by (simp add: convertedPoints_pairs)
  have 3: "\<forall>ch\<in>set chunks. ch \<noteq> [] \<and> int (length ch) \<le> maxTableSize c"
  proof
    fix ch assume "ch \<in> set chunks"
    with chunkBy_loop_bound [OF n cne, of ch "[]"] have "ch \<noteq> [] \<and> length ch \<le> n"
      by (simp add: chunks_def)
    then show "ch \<noteq> [] \<and> int (length ch) \<le> maxTableSize c"
      using b unfolding n_def by arith
  qed
  have rb: "real_of_int (maxTableSize c) = real n"
    using b by (simp add: n_def)
  have 4: "length chunks = nat \<lceil>real (length points) / real_of_int (maxTableSize c)\<rceil>"
    using chunkBy_loop_length [OF n cne, of "[]"] ceil_div_nat [OF n, of "length points"]
    by (simp add: chunks_def len rb)
  have "\<forall>x\<in>set (List.product E E).
          \<exists>r. tableRequest L c config (fst x) (snd x) = Returns r
             \<and> int (fst (fst x)) = reqRow r \<and> int (fst (snd x)) = reqColumn r"
    using tableRequest_Returns [OF p0 pp] by metis
  from collect_Returns [of "List.product E E" "\<lambda>x. tableRequest L c config (fst x) (snd x)"
        "\<lambda>x r. int (fst (fst x)) = reqRow r \<and> int (fst (snd x)) = reqColumn r", OF this]
  obtain requests where
    r: "collect (map (\<lambda>x. tableRequest L c config (fst x) (snd x)) (List.product E E)) = Returns requests"
    and a: "list_all2 (\<lambda>x r. int (fst (fst x)) = reqRow r \<and> int (fst (snd x)) = reqColumn r)
              (List.product E E) requests"
    by blast
  have 5: "tableRequests L c config points = Returns requests"
    using r by (simp add: tableRequests_def 1 concat_map_product E_def)
  from a have lr: "length requests = length chunks * length chunks"
    by (simp add: list_all2_lengthD [symmetric] E_def)
  from a have "list_all2 (\<lambda>x r. (int (fst (fst x)), int (fst (snd x))) = (reqRow r, reqColumn r))
              (List.product E E) requests"
    by (simp add: list_all2_conv_all_nth)
  then have "map (\<lambda>r. (reqRow r, reqColumn r)) requests
      = map (\<lambda>x. (int (fst (fst x)), int (fst (snd x)))) (List.product E E)"
    by (rule list_all2_map_eq)
  also have "\<dots> = map (\<lambda>ij. (int (fst ij), int (snd ij))) (List.product (map fst E) (map fst E))"
    by (simp add: product_map_map comp_def)
  also have "map fst E = [0..<length chunks]"
    by (simp add: E_def)
  finally have 6: "map (\<lambda>r. (reqRow r, reqColumn r)) requests
        = map (\<lambda>ij. (int (fst ij), int (snd ij)))
            (List.product [0..<length chunks] [0..<length chunks])" .
  from 1 2 inp 3 4 5 6 lr show ?thesis
    by (simp add: power2_eq_square)
qed


theorem C5_tableRequests_count_witness:
  "[[1, 1], [2, 2], [3, 3]] \<noteq> ([] :: Point list)
   \<and> 1 \<le> maxTableSize ((NewClient ''h'')\<lparr>maxTableSize := 2\<rparr>)
   \<and> parses exampleLib ''/table/v1/driving/''
   \<and> (\<exists>requests.
         tableRequests exampleLib ((NewClient ''h'')\<lparr>maxTableSize := 2\<rparr>) exampleConfig
           [[1, 1], [2, 2], [3, 3]] = Returns requests
         \<and> length requests = 4
         \<and> map (\<lambda>r. (reqRow r, reqColumn r)) requests = [(0, 0), (0, 1), (1, 0), (1, 1)])"
proof -
  have p0: "parses exampleLib ''/table/v1/driving/''"
    by (simp add: parses_def exampleLib_def)
  have pp: "\<And>pts. parses exampleLib (Join (map (pointString exampleLib) pts) '';'')"
    by (simp add: parses_def exampleLib_def)
  have ne: "[[1, 1], [2, 2], [3, 3]] \<noteq> ([] :: Point list)" by simp
  have b: "1 \<le> maxTableSize ((NewClient ''h'')\<lparr>maxTableSize := 2\<rparr>)" by simp
  have c: "nat \<lceil>real (length [[1, 1], [2, 2], [3 :: real, 3]])
              / real_of_int (maxTableSize ((NewClient ''h'')\<lparr>maxTableSize := 2\<rparr>))\<rceil> = 2"
    by simp
  from C5_tableRequests_count [OF ne b p0 pp, of exampleConfig] p0 ne b
  show ?thesis
    unfolding c by (auto simp: upt_rec)
qed

section \<open>Unroutable points in the request path\<close>

lemma collect_Returns_inv:
  "collect (map f xs) = Returns ys \<Longrightarrow> list_all2 (\<lambda>x y. f x = Returns y) xs ys"
proof (induction xs arbitrary: ys)
  case Nil
  then show ?case by simp
next
  case (Cons x xs)
  from Cons.prems obtain y where y: "f x = Returns y"
    by (cases "f x") simp_all
  with Cons.prems obtain zs where zs: "collect (map f xs) = Returns zs"
    by (cases "collect (map f xs)") simp_all
  with y Cons.prems have "ys = y # zs" by simp
  with y Cons.IH [OF zs] show ?case by simp
qed

lemma chunkBy_loop_append:
  "chunkBy_loop items b chunks = chunks @ chunkBy_loop items b []"
proof (induction "length items" arbitrary: items chunks rule: less_induct)
  case less
  show ?case
  proof (cases "0 < b \<and> b < length items")
    case True
    then have l: "length (drop b items) < length items" by auto
    have "chunkBy_loop items b chunks
        = chunkBy_loop (drop b items) b (chunks @ [take b items])"
      using True by (simp add: chunkBy_loop_step)
    also have "\<dots> = (chunks @ [take b items]) @ chunkBy_loop (drop b items) b []"
      using l by (rule less)
    also have "\<dots> = chunks @ ([take b items] @ chunkBy_loop (drop b items) b [])"
      by simp
    also have "[take b items] @ chunkBy_loop (drop b items) b []
        = chunkBy_loop (drop b items) b [take b items]"
      using l by (rule less [symmetric])
    also have "\<dots> = chunkBy_loop items b []"
      using True by (simp add: chunkBy_loop_step)
    finally show ?thesis .
  next
    case False
    then show ?thesis by (subst (1 2) chunkBy_loop.simps) auto
  qed
qed

lemma chunkBy_loop_nth:
  "0 < b \<Longrightarrow> p < length (chunkBy_loop items b []) \<Longrightarrow>
   chunkBy_loop items b [] ! p = take b (drop (p * b) items)"
proof (induction p arbitrary: items)
  case 0
  show ?case
  proof (cases "b < length items")
    case True
    with "0.prems"(1) have "chunkBy_loop items b [] = [take b items] @ chunkBy_loop (drop b items) b []"
      using chunkBy_loop_append [of "drop b items" b "[take b items]"]
      by (simp add: chunkBy_loop_step)
    then show ?thesis by simp
  next
    case False
    then show ?thesis by (simp add: chunkBy_loop_stop)
  qed
next
  case (Suc p)
  show ?case
  proof (cases "b < length items")
    case True
    with Suc.prems(1) have e: "chunkBy_loop items b [] = take b items # chunkBy_loop (drop b items) b []"
      using chunkBy_loop_append [of "drop b items" b "[take b items]"]
      by (simp add: chunkBy_loop_step)
    with Suc.prems(2) have "p < length (chunkBy_loop (drop b items) b [])" by simp
    from Suc.IH [OF Suc.prems(1) this] e show ?thesis
      by (simp add: add.commute)
  next
    case False
    with Suc.prems(2) show ?thesis by (simp add: chunkBy_loop_stop)
  qed
qed

lemma tableRequest_path:
  assumes "tableRequest L c config pc1 pc2 = Returns r"
  shows "\<exists>prefix options.
           getPath L TableEndpoint (Join (map (pointString L) (snd pc1 @ snd pc2)) '';'')
             = Returns prefix
         \<and> path r = prefix @ options
              @ ''&sources='' @ Join (map (\<lambda>i. Itoa (int i)) [0..<length (snd pc1)]) '';''
              @ ''&destinations=''
              @ Join (map (\<lambda>i. Itoa (int i))
                        [length (snd pc1)..<length (snd pc1) + length (snd pc2)]) '';''
         \<and> reqRow r = int (fst pc1) \<and> reqColumn r = int (fst pc2)"
proof -
  from assms obtain prefix where
    g: "getPath L TableEndpoint (Join (map (pointString L) (snd pc1 @ snd pc2)) '';'') = Returns prefix"
    by (cases "getPath L TableEndpoint (Join (map (pointString L) (snd pc1 @ snd pc2)) '';'')")
       (simp_all add: tableRequest_def Let_def)
  define annotations where "annotations =
                (if (\<not> withDistance config \<and> \<not> withDuration config) \<or> withDuration config then [''duration''] else [])
                @ (if (\<not> withDistance config \<and> \<not> withDuration config) \<or> withDistance config then [''distance''] else [])"
  define o1 where "o1 = (if 1 \<le> length annotations
                       then ''?annotations='' @ Join annotations '','' else [])"
  define o2 where "o2 = (if withApproachCurb config
                       then ''&approaches=''
                            @ Join (replicate (length (snd pc1 @ snd pc2)) ''curb'') '';''
                       else [])"
  define o3 where "o3 = (if 0 < length (withExclude config)
                       then ''&exclude='' @ Join (withExclude config) '','' else [])"
  define o4 where "o4 = (if scaleFactor c \<noteq> 1
                       then ''&scale_factor='' @ Sprintf_f L (scaleFactor c) else [])"
  define o5 where "o5 = (if 0 < snapRadius c
                       then ''&radiuses=''
                            @ Join (replicate (length (snd pc1 @ snd pc2)) (Itoa (snapRadius c))) '';''
                       else [])"
  have ix: "take (length (snd pc1)) (map (\<lambda>i. Itoa (int i)) [0..<length (snd pc1 @ snd pc2)])
          = map (\<lambda>i. Itoa (int i)) [0..<length (snd pc1)]"
    "drop (length (snd pc1)) (map (\<lambda>i. Itoa (int i)) [0..<length (snd pc1 @ snd pc2)])
          = map (\<lambda>i. Itoa (int i)) [length (snd pc1)..<length (snd pc1) + length (snd pc2)]"
    by (simp_all add: take_map drop_map)
  from assms g have "path r = prefix @ (o1 @ o2 @ o3 @ o4 @ o5)
              @ ''&sources='' @ Join (map (\<lambda>i. Itoa (int i)) [0..<length (snd pc1)]) '';''
              @ ''&destinations=''
              @ Join (map (\<lambda>i. Itoa (int i))
                        [length (snd pc1)..<length (snd pc1) + length (snd pc2)]) '';''"
    and "reqRow r = int (fst pc1)" and "reqColumn r = int (fst pc2)"
    unfolding tableRequest_def Let_def o1_def o2_def o3_def o4_def o5_def annotations_def ix
    by auto
  with g show ?thesis by blast
qed


lemma convertedPoints_sentPoint: "convertedPoints ps = map sentPoint ps"
  by (simp add: convertedPoints_def handleUnroutablePoints_def sentPoint_def pair_nth_eq
      unroutablePoint_def)

lemma sentBlock_nth:
  assumes "i < length (sentBlock c ps k)"
  shows "k * nat (maxTableSize c) + i < length ps
       \<and> sentBlock c ps k ! i = sentPoint (ps ! (k * nat (maxTableSize c) + i))"
proof -
  from assms have l: "k * nat (maxTableSize c) + i < length ps"
    by (simp add: sentBlock_def) arith
  with assms show ?thesis
    by (simp add: sentBlock_def drop_map)
qed

lemma list_all2_in_set2:
  "list_all2 P xs ys \<Longrightarrow> y \<in> set ys \<Longrightarrow> \<exists>x\<in>set xs. P x y"
proof -
  assume a: "list_all2 P xs ys" and "y \<in> set ys"
  then obtain i where i: "i < length ys" "y = ys ! i" by (auto simp: in_set_conv_nth)
  from a i have "P (xs ! i) y" and "i < length xs"
    by (simp_all add: list_all2_conv_all_nth)
  then show ?thesis using nth_mem by blast
qed

lemma tableRequests_request:
  assumes t: "tableRequests L c config ps = Returns requests" and r: "r \<in> set requests"
  shows "\<exists>p1 p2. tableRequest L c config (p1, sentBlock c ps p1) (p2, sentBlock c ps p2) = Returns r"
proof -
  let ?b = "nat (maxTableSize c)"
  let ?chunks = "chunkBy_loop (convertedPoints ps) ?b []"
  let ?E = "enumerate 0 ?chunks"
  have b: "0 < maxTableSize c"
  proof (rule ccontr)
    assume "\<not> 0 < maxTableSize c"
    then have "tableRequests L c config ps = Panics"
      by (simp add: tableRequests_def chunkBy_def)
    with t show False by simp
  qed
  then have nb: "0 < ?b" by simp
  from t b have "collect (map (\<lambda>x. tableRequest L c config (fst x) (snd x)) (List.product ?E ?E))
       = Returns requests"
    by (simp add: tableRequests_def chunkBy_def concat_map_product)
  then have "list_all2 (\<lambda>x y. tableRequest L c config (fst x) (snd x) = Returns y)
       (List.product ?E ?E) requests"
    by (rule collect_Returns_inv)
  from list_all2_in_set2 [OF this r]
  obtain x where x: "x \<in> set (List.product ?E ?E)"
    and tr: "tableRequest L c config (fst x) (snd x) = Returns r"
    by blast
  obtain p1 ch1 p2 ch2 where xe: "x = ((p1, ch1), (p2, ch2))"
    by (cases x) auto
  from x xe have "(p1, ch1) \<in> set ?E" "(p2, ch2) \<in> set ?E" by simp_all
  then have p: "p1 < length ?chunks" "ch1 = ?chunks ! p1" "p2 < length ?chunks" "ch2 = ?chunks ! p2"
    by (simp_all add: in_set_enumerate_eq)
  from p(1,2) have c1: "ch1 = sentBlock c ps p1"
    by (simp add: chunkBy_loop_nth [OF nb] sentBlock_def convertedPoints_sentPoint)
  from p(3,4) have c2: "ch2 = sentBlock c ps p2"
    by (simp add: chunkBy_loop_nth [OF nb] sentBlock_def convertedPoints_sentPoint)
  from tr xe c1 c2 show ?thesis by auto
qed

text \<open>
  \<open>tableRequests\<close> does return, and returns at least one request, whenever the
  table size is at least one and \<open>url.Parse\<close> accepts the path prefix and the
  lists of formatted coordinates.
\<close>

lemma tableRequests_Returns:
  assumes b: "1 \<le> maxTableSize c"
      and p0: "parses L ''/table/v1/driving/''"
      and pp: "\<And>pts. parses L (Join (map (pointString L) pts) '';'')"
  shows "\<exists>requests. tableRequests L c config ps = Returns requests \<and> requests \<noteq> []"
proof -
  let ?chunks = "chunkBy_loop (convertedPoints ps) (nat (maxTableSize c)) []"
  let ?E = "enumerate 0 ?chunks"
  have "\<forall>x\<in>set (List.product ?E ?E).
          \<exists>r. tableRequest L c config (fst x) (snd x) = Returns r
             \<and> int (fst (fst x)) = reqRow r \<and> int (fst (snd x)) = reqColumn r"
    using tableRequest_Returns [OF p0 pp] by metis
  from collect_Returns [of "List.product ?E ?E" "\<lambda>x. tableRequest L c config (fst x) (snd x)"
        "\<lambda>x r. int (fst (fst x)) = reqRow r \<and> int (fst (snd x)) = reqColumn r", OF this]
  obtain requests where
    r: "collect (map (\<lambda>x. tableRequest L c config (fst x) (snd x)) (List.product ?E ?E))
          = Returns requests"
    and a: "list_all2 (\<lambda>x r. int (fst (fst x)) = reqRow r \<and> int (fst (snd x)) = reqColumn r)
              (List.product ?E ?E) requests"
    by blast
  have ne: "?chunks \<noteq> []"
  proof (cases "nat (maxTableSize c) < length (convertedPoints ps)")
    case True
    with b have "?chunks = chunkBy_loop (drop (nat (maxTableSize c)) (convertedPoints ps))
        (nat (maxTableSize c)) [take (nat (maxTableSize c)) (convertedPoints ps)]"
      by (simp add: chunkBy_loop_step)
    also have "\<dots> = [take (nat (maxTableSize c)) (convertedPoints ps)]
        @ chunkBy_loop (drop (nat (maxTableSize c)) (convertedPoints ps)) (nat (maxTableSize c)) []"
      by (rule chunkBy_loop_append)
    finally show ?thesis by simp
  next
    case False
    then show ?thesis by (simp add: chunkBy_loop_stop)
  qed
  from a have "length requests = length ?chunks * length ?chunks"
    by (simp add: list_all2_lengthD [symmetric])
  with ne have "requests \<noteq> []" by auto
  moreover from r b have "tableRequests L c config ps = Returns requests"
    by (simp add: tableRequests_def chunkBy_def concat_map_product)
  ultimately show ?thesis by blast
qed

text \<open>
  C7, amended. For every point list passed to \<open>pointsParameter\<close> and to
  \<open>tableRequests\<close>, a point that does not have exactly two coordinates (an absent
  point in particular) is replaced in the request coordinate string by the fixed
  out-of-service coordinate rather than omitted, and a point with two
  coordinates, the (0, 0) pair included, is sent as it is. The string of
  \<open>pointsParameter\<close> is the join of the formatted entries, one for each input
  point. The path of every request that \<open>tableRequests\<close> returns starts with the
  path of the formatted row block followed by the formatted column block, and
  ends with the sources \<open>0, ..., n1 - 1\<close> and the destinations \<open>n1, ..., n1 + n2 - 1\<close>,
  \<open>n1\<close> and \<open>n2\<close> being the sizes of the two blocks; the entry of index \<open>i\<close> among
  the sources is what is sent for the input point \<open>row * maxTableSize + i\<close>, the
  entry of index \<open>n1 + j\<close> what is sent for the input point
  \<open>column * maxTableSize + j\<close>: the indices stay aligned.
\<close>

theorem C7_sentinel_in_request:
  assumes t: "tableRequests L c config ps = Returns requests" and r: "r \<in> set requests"
  shows "pointsParameter L ps = Join (map (\<lambda>p. pointString L (sentPoint p)) ps) '';''
       \<and> length (pointsParameters L ps) = length ps
       \<and> (\<exists>prefix options.
             getPath L TableEndpoint
               (Join (map (pointString L)
                        (sentBlock c ps (nat (reqRow r)) @ sentBlock c ps (nat (reqColumn r)))) '';'')
               = Returns prefix
           \<and> path r = prefix @ options
                @ ''&sources=''
                @ Join (map (\<lambda>i. Itoa (int i))
                          [0..<length (sentBlock c ps (nat (reqRow r)))]) '';''
                @ ''&destinations=''
                @ Join (map (\<lambda>i. Itoa (int i))
                          [length (sentBlock c ps (nat (reqRow r)))
                             ..<length (sentBlock c ps (nat (reqRow r)))
                                + length (sentBlock c ps (nat (reqColumn r)))]) '';'')
       \<and> (\<forall>i<length (sentBlock c ps (nat (reqRow r))).
             (sentBlock c ps (nat (reqRow r)) @ sentBlock c ps (nat (reqColumn r))) ! i
               = sentPoint (ps ! (nat (reqRow r) * nat (maxTableSize c) + i)))
       \<and> (\<forall>j<length (sentBlock c ps (nat (reqColumn r))).
             (sentBlock c ps (nat (reqRow r)) @ sentBlock c ps (nat (reqColumn r)))
               ! (length (sentBlock c ps (nat (reqRow r))) + j)
               = sentPoint (ps ! (nat (reqColumn r) * nat (maxTableSize c) + j)))"
proof -
  have 1: "pointsParameter L ps = Join (map (\<lambda>p. pointString L (sentPoint p)) ps) '';''"
    by (simp add: pointsParameter_def pointsParameters_def handleUnroutablePoints_def
        sentPoint_def comp_def)
  have 2: "length (pointsParameters L ps) = length ps"
    by (simp add: pointsParameters_def handleUnroutablePoints_def)
  from tableRequests_request [OF t r] obtain p1 p2 where
    tr: "tableRequest L c config (p1, sentBlock c ps p1) (p2, sentBlock c ps p2) = Returns r"
    by blast
  from tableRequest_path [OF tr] obtain prefix options where
    g: "getPath L TableEndpoint
          (Join (map (pointString L) (sentBlock c ps p1 @ sentBlock c ps p2)) '';'') = Returns prefix"
    and pa: "path r = prefix @ options
              @ ''&sources='' @ Join (map (\<lambda>i. Itoa (int i)) [0..<length (sentBlock c ps p1)]) '';''
              @ ''&destinations=''
              @ Join (map (\<lambda>i. Itoa (int i))
                        [length (sentBlock c ps p1)..<length (sentBlock c ps p1) + length (sentBlock c ps p2)]) '';''"
    and rc: "reqRow r = int p1" "reqColumn r = int p2"
    by auto
  from rc have n: "nat (reqRow r) = p1" "nat (reqColumn r) = p2" by simp_all
  have 3: "\<exists>prefix options.
             getPath L TableEndpoint
               (Join (map (pointString L)
                        (sentBlock c ps (nat (reqRow r)) @ sentBlock c ps (nat (reqColumn r)))) '';'')
               = Returns prefix
           \<and> path r = prefix @ options
                @ ''&sources=''
                @ Join (map (\<lambda>i. Itoa (int i))
                          [0..<length (sentBlock c ps (nat (reqRow r)))]) '';''
                @ ''&destinations=''
                @ Join (map (\<lambda>i. Itoa (int i))
                          [length (sentBlock c ps (nat (reqRow r)))
                             ..<length (sentBlock c ps (nat (reqRow r)))
                                + length (sentBlock c ps (nat (reqColumn r)))]) '';''"
    unfolding n using g pa by blast
  have 4: "\<forall>i<length (sentBlock c ps (nat (reqRow r))).
             (sentBlock c ps (nat (reqRow r)) @ sentBlock c ps (nat (reqColumn r))) ! i
               = sentPoint (ps ! (nat (reqRow r) * nat (maxTableSize c) + i))"
    using sentBlock_nth by (simp add: nth_append)
  have 5: "\<forall>j<length (sentBlock c ps (nat (reqColumn r))).
             (sentBlock c ps (nat (reqRow r)) @ sentBlock c ps (nat (reqColumn r)))
               ! (length (sentBlock c ps (nat (reqRow r))) + j)
               = sentPoint (ps ! (nat (reqColumn r) * nat (maxTableSize c) + j))"
    using sentBlock_nth by (simp add: nth_append)
  from 1 2 3 4 5 show ?thesis by simp
qed



theorem C7_sentinel_in_request_witness:
  "pointsParameter exampleLib [[], [1, 2]] = ''-143.292892,37.683603;1.000000,2.000000''
   \<and> tableRequests exampleLib (NewClient ''h'') exampleConfig [[], [1, 2]]
       = Returns [\<lparr>path = ''/table/v1/driving/-143.292892,37.683603;1.000000,2.000000;''
                           @ ''-143.292892,37.683603;1.000000,2.000000''
                           @ ''?annotations=duration,distance&sources=0;1&destinations=2;3'',
                    reqRow = 0, reqColumn = 0\<rparr>]
   \<and> (\<exists>options.
         ''/table/v1/driving/-143.292892,37.683603;1.000000,2.000000;''
           @ ''-143.292892,37.683603;1.000000,2.000000''
           @ ''?annotations=duration,distance&sources=0;1&destinations=2;3''
         = (''/table/v1/driving/-143.292892,37.683603;1.000000,2.000000;''
              @ ''-143.292892,37.683603;1.000000,2.000000'')
           @ options @ ''&sources=0;1&destinations=2;3'')"
proof -
  let ?c = "NewClient ''h''"
  let ?ps = "[[], [1, 2]] :: Point list"
  let ?r = "\<lparr>path = ''/table/v1/driving/-143.292892,37.683603;1.000000,2.000000;''
                           @ ''-143.292892,37.683603;1.000000,2.000000''
                           @ ''?annotations=duration,distance&sources=0;1&destinations=2;3'',
                    reqRow = 0, reqColumn = 0\<rparr>"
  have t: "tableRequests exampleLib ?c exampleConfig ?ps = Returns [?r]"
    by code_simp
  have m: "?r \<in> set [?r]" by simp
  have n: "nat (reqRow ?r) = 0" "nat (reqColumn ?r) = 0" by simp_all
  have g: "getPath exampleLib TableEndpoint
             (Join (map (pointString exampleLib) (sentBlock ?c ?ps 0 @ sentBlock ?c ?ps 0)) '';'')
           = Returns (''/table/v1/driving/-143.292892,37.683603;1.000000,2.000000;''
                        @ ''-143.292892,37.683603;1.000000,2.000000'')"
    by code_simp
  have l: "length (sentBlock ?c ?ps 0) = 2"
    by code_simp
  have s: "Join (map (\<lambda>i. Itoa (int i)) [0..<2]) '';'' = ''0;1''"
    "Join (map (\<lambda>i. Itoa (int i)) [2..<2 + 2]) '';'' = ''2;3''"
    by code_simp+
  have pp: "Join (map (\<lambda>p. pointString exampleLib (sentPoint p)) ?ps) '';''
            = ''-143.292892,37.683603;1.000000,2.000000''"
    by code_simp
  from C7_sentinel_in_request [OF t m]
  have 1: "pointsParameter exampleLib ?ps
            = Join (map (\<lambda>p. pointString exampleLib (sentPoint p)) ?ps) '';''"
    by blast
  from C7_sentinel_in_request [OF t m] obtain prefix options where
    "getPath exampleLib TableEndpoint
       (Join (map (pointString exampleLib)
                (sentBlock ?c ?ps (nat (reqRow ?r)) @ sentBlock ?c ?ps (nat (reqColumn ?r)))) '';'')
       = Returns prefix"
    "path ?r = prefix @ options
                @ ''&sources=''
                @ Join (map (\<lambda>i. Itoa (int i))
                          [0..<length (sentBlock ?c ?ps (nat (reqRow ?r)))]) '';''
                @ ''&destinations=''
                @ Join (map (\<lambda>i. Itoa (int i))
                          [length (sentBlock ?c ?ps (nat (reqRow ?r)))
                             ..<length (sentBlock ?c ?ps (nat (reqRow ?r)))
                                + length (sentBlock ?c ?ps (nat (reqColumn ?r)))]) '';''"
    by blast
  then have "path ?r = (''/table/v1/driving/-143.292892,37.683603;1.000000,2.000000;''
              @ ''-143.292892,37.683603;1.000000,2.000000'')
           @ options @ ''&sources=0;1&destinations=2;3''"
    unfolding n l using g s by simp
  then have 3: "\<exists>options.
         ''/table/v1/driving/-143.292892,37.683603;1.000000,2.000000;''
           @ ''-143.292892,37.683603;1.000000,2.000000''
           @ ''?annotations=duration,distance&sources=0;1&destinations=2;3''
         = (''/table/v1/driving/-143.292892,37.683603;1.000000,2.000000;''
              @ ''-143.292892,37.683603;1.000000,2.000000'')
           @ options @ ''&sources=0;1&destinations=2;3''"
    by (intro exI [of _ options]) simp
  from 1 pp t 3 show ?thesis by simp
qed


section \<open>Stitching does not depend on the order of arrival\<close>

text \<open>
  The comparison of the source is the strict order of the keys, and a list
  whose keys are distinct has one sorted arrangement only.
\<close>

lemma less_response_key: "less_response a b \<longleftrightarrow> responseKey a < responseKey b"
  by (auto simp: less_response_def responseKey_def less_prod_def)

lemma filter_distinct_key:
  "distinct (map f zs) \<Longrightarrow> k \<in> set zs \<Longrightarrow> filter (\<lambda>x. f k = f x) zs = [k]"
proof (induction zs)
  case Nil
  then show ?case by simp
next
  case (Cons z zs)
  show ?case
  proof (cases "k = z")
    case True
    with Cons.prems(1) have "\<forall>x\<in>set zs. f k \<noteq> f x" by auto
    then have "filter (\<lambda>x. f k = f x) zs = []" by (simp add: filter_empty_conv)
    with True show ?thesis by simp
  next
    case False
    with Cons.prems have k: "k \<in> set zs" and "f z \<noteq> f k" by auto
    with Cons.IH Cons.prems(1) show ?thesis by auto
  qed
qed

lemma sort_key_distinct_unique:
  assumes d: "distinct (map f xs)" and m: "mset ys = mset xs"
  shows "sort_key f ys = sort_key f xs"
proof (rule properties_for_sort_key)
  show "mset (sort_key f xs) = mset ys" using m by simp
  show "sorted (map f (sort_key f xs))" by (rule sorted_sort_key)
  fix k assume k: "k \<in> set (sort_key f xs)"
  have "mset (map f (sort_key f xs)) = mset (map f xs)" by simp
  then have ds: "distinct (map f (sort_key f xs))"
    using d by (metis mset_eq_imp_distinct_iff)
  have "mset (map f ys) = mset (map f xs)" using m by simp
  then have dy: "distinct (map f ys)"
    using d by (metis mset_eq_imp_distinct_iff)
  from k m have ky: "k \<in> set ys" by (metis mset_eq_setD set_sort)
  show "filter (\<lambda>x. f k = f x) (sort_key f xs) = filter (\<lambda>x. f k = f x) ys"
    by (simp only: filter_distinct_key [OF ds k] filter_distinct_key [OF dy ky])
qed

text \<open>
  C3. When the (row, column) pairs of the responses are pairwise distinct,
  \<open>mergeRequests\<close> gives the same outcome, and so the same distance and duration
  matrices, on every rearrangement of the list: the list is sorted by (row,
  column) first and the stitching reads the sorted list only. (The lists of the
  model are values; the statement is about responses whose matrices do not
  share memory, as the decoded responses of \<open>Table\<close> are.)
\<close>

theorem C3_mergeRequests_order_independent:
  assumes "distinct (map responseKey responses)" and "mset arrived = mset responses"
  shows "mergeRequests arrived = mergeRequests responses"
  unfolding mergeRequests_def sort_key_distinct_unique [OF assms] ..


theorem C3_mergeRequests_order_independent_witness: 
  "distinct (map responseKey exampleBlocks)
   \<and> mset (rev exampleBlocks) = mset exampleBlocks
   \<and> mergeRequests (rev exampleBlocks) = mergeRequests exampleBlocks
   \<and> mergeRequests exampleBlocks
      = Returns (exampleBlock 0 0 [[1, 2, 3], [4, 5, 6], [7, 8, 9]]
                                  [[10, 20, 30], [40, 50, 60], [70, 80, 90]])"
proof -
  have d: "distinct (map responseKey exampleBlocks)"
    by (simp add: exampleBlocks_def exampleBlock_def responseKey_def)
  have m: "mset (rev exampleBlocks) = mset exampleBlocks" by simp
  have e: "mergeRequests exampleBlocks
      = Returns (exampleBlock 0 0 [[1, 2, 3], [4, 5, 6], [7, 8, 9]]
                                  [[10, 20, 30], [40, 50, 60], [70, 80, 90]])"
    by code_simp
  from d m e C3_mergeRequests_order_independent [OF d m] show ?thesis by simp
qed

section \<open>Restoring the matrix after the removal of zero points\<close>

lemma swapped_Cons: "swapped ((j, oj) # js) = (oj, j) # swapped js"
  by (simp add: swapped_def)

lemma map_of_swapped_None: "k \<notin> snd ` set js \<Longrightarrow> map_of (swapped js) k = None"
  by (simp add: swapped_def map_of_eq_None_iff image_image)

lemma inflateZeroes_cols_spec:
  assumes "i < length matrix"
      and "\<forall>p\<in>set js. fst p < length (matrix ! i) \<and> snd p < n"
      and "oi < n"
      and "length inflated = n"
      and "\<forall>r<n. length (inflated ! r) = n"
      and "distinct (map snd js)"
  shows "\<exists>out. inflateZeroes_cols matrix i oi js inflated = Returns out
           \<and> length out = n \<and> (\<forall>r<n. length (out ! r) = n)
           \<and> (\<forall>r<n. \<forall>k<n. out ! r ! k =
                 (if r = oi
                  then (case map_of (swapped js) k of
                          Some j \<Rightarrow> matrix ! i ! j | None \<Rightarrow> inflated ! r ! k)
                  else inflated ! r ! k))"
  using assms
proof (induction js arbitrary: inflated)
  case Nil
  then show ?case by (simp add: swapped_def)
next
  case (Cons p js)
  obtain j oj where p: "p = (j, oj)" by (cases p)
  define inflated1 where "inflated1 = inflated[oi := (inflated ! oi)[oj := matrix ! i ! j]]"
  from Cons.prems p have j: "j < length (matrix ! i)" and oj: "oj < n" by auto
  have step: "inflateZeroes_cols matrix i oi (p # js) inflated
            = inflateZeroes_cols matrix i oi js inflated1"
    using Cons.prems(1,3,4,5) j oj by (simp add: p inflated1_def)
  have l1: "length inflated1 = n" using Cons.prems(4) by (simp add: inflated1_def)
  have r1: "\<forall>r<n. length (inflated1 ! r) = n"
    using Cons.prems(3,4,5) by (simp add: inflated1_def nth_list_update)
  have c1: "\<forall>r<n. \<forall>k<n. inflated1 ! r ! k
              = (if r = oi \<and> k = oj then matrix ! i ! j else inflated ! r ! k)"
    using Cons.prems(3,4,5) by (simp add: inflated1_def nth_list_update)
  from Cons.prems(2) have pre: "\<forall>q\<in>set js. fst q < length (matrix ! i) \<and> snd q < n" by simp
  from Cons.prems(6) p have d: "distinct (map snd js)" and notin: "oj \<notin> snd ` set js" by auto
  from Cons.IH [OF Cons.prems(1) pre Cons.prems(3) l1 r1 d]
  obtain out where out: "inflateZeroes_cols matrix i oi js inflated1 = Returns out"
    "length out = n" "\<forall>r<n. length (out ! r) = n"
    "\<forall>r<n. \<forall>k<n. out ! r ! k =
                 (if r = oi
                  then (case map_of (swapped js) k of
                          Some j \<Rightarrow> matrix ! i ! j | None \<Rightarrow> inflated1 ! r ! k)
                  else inflated1 ! r ! k)"
    by blast
  have "\<forall>r<n. \<forall>k<n. out ! r ! k =
                 (if r = oi
                  then (case map_of (swapped (p # js)) k of
                          Some j \<Rightarrow> matrix ! i ! j | None \<Rightarrow> inflated ! r ! k)
                  else inflated ! r ! k)"
    using out(4) c1 map_of_swapped_None [OF notin]
    by (auto simp: p swapped_Cons split: option.splits)
  with out(1,2,3) step show ?case by simp
qed

lemma inflateZeroes_rows_spec:
  assumes "\<forall>p\<in>set is. fst p < length matrix \<and> snd p < n
              \<and> (\<forall>q\<in>set (enumerate 0 indices). fst q < length (matrix ! fst p))"
      and "\<forall>q\<in>set (enumerate 0 indices). snd q < n"
      and "distinct indices"
      and "length inflated = n"
      and "\<forall>r<n. length (inflated ! r) = n"
      and "distinct (map snd is)"
  shows "\<exists>out. inflateZeroes_rows matrix indices is inflated = Returns out
           \<and> length out = n \<and> (\<forall>r<n. length (out ! r) = n)
           \<and> (\<forall>r<n. \<forall>k<n. out ! r ! k =
                 (case map_of (swapped is) r of
                    Some i \<Rightarrow>
                      (case map_of (swapped (enumerate 0 indices)) k of
                         Some j \<Rightarrow> matrix ! i ! j | None \<Rightarrow> inflated ! r ! k)
                  | None \<Rightarrow> inflated ! r ! k))"
  using assms
proof (induction "is" arbitrary: inflated)
  case Nil
  then show ?case by (simp add: swapped_def)
next
  case (Cons p "is")
  obtain i oi where p: "p = (i, oi)" by (cases p)
  from Cons.prems(1) p have i: "i < length matrix" and oi: "oi < n"
    and cols: "\<forall>q\<in>set (enumerate 0 indices). fst q < length (matrix ! i) \<and> snd q < n"
    using Cons.prems(2) by auto
  have dE: "distinct (map snd (enumerate 0 indices))"
    using Cons.prems(3) by (simp add: enumerate_eq_zip)
  from inflateZeroes_cols_spec [OF i cols oi Cons.prems(4,5) dE]
  obtain out1 where out1: "inflateZeroes_cols matrix i oi (enumerate 0 indices) inflated = Returns out1"
    "length out1 = n" "\<forall>r<n. length (out1 ! r) = n"
    "\<forall>r<n. \<forall>k<n. out1 ! r ! k =
                 (if r = oi
                  then (case map_of (swapped (enumerate 0 indices)) k of
                          Some j \<Rightarrow> matrix ! i ! j | None \<Rightarrow> inflated ! r ! k)
                  else inflated ! r ! k)"
    by blast
  from Cons.prems(1) have pre: "\<forall>p\<in>set is. fst p < length matrix \<and> snd p < n
              \<and> (\<forall>q\<in>set (enumerate 0 indices). fst q < length (matrix ! fst p))" by simp
  from Cons.prems(6) p have d: "distinct (map snd is)" and notin: "oi \<notin> snd ` set is" by auto
  from Cons.IH [OF pre Cons.prems(2,3) out1(2,3) d]
  obtain out where out: "inflateZeroes_rows matrix indices is out1 = Returns out"
    "length out = n" "\<forall>r<n. length (out ! r) = n"
    "\<forall>r<n. \<forall>k<n. out ! r ! k =
                 (case map_of (swapped is) r of
                    Some i \<Rightarrow>
                      (case map_of (swapped (enumerate 0 indices)) k of
                         Some j \<Rightarrow> matrix ! i ! j | None \<Rightarrow> out1 ! r ! k)
                  | None \<Rightarrow> out1 ! r ! k)"
    by blast
  have "\<forall>r<n. \<forall>k<n. out ! r ! k =
                 (case map_of (swapped (p # is)) r of
                    Some i \<Rightarrow>
                      (case map_of (swapped (enumerate 0 indices)) k of
                         Some j \<Rightarrow> matrix ! i ! j | None \<Rightarrow> inflated ! r ! k)
                  | None \<Rightarrow> inflated ! r ! k)"
    using out(4) out1(4) map_of_swapped_None [OF notin]
    by (auto simp: p swapped_Cons split: option.splits)
  moreover have "inflateZeroes_rows matrix indices (p # is) inflated = Returns out"
    using out1(1) out(1) by (simp add: p)
  ultimately show ?case using out(2,3) by simp
qed


lemma swapped_enumerate: "swapped (enumerate 0 indices) = zip indices [0..<length indices]"
  unfolding swapped_def enumerate_eq_zip
  by (subst zip_commute) (simp add: case_prod_beta)

lemma map_of_swapped_enumerate_Some:
  "distinct indices \<Longrightarrow> i < length indices \<Longrightarrow>
   map_of (swapped (enumerate 0 indices)) (indices ! i) = Some i"
  using map_of_zip_nth [of indices "[0..<length indices]" i]
  by (simp add: swapped_enumerate)

lemma map_of_swapped_enumerate_None:
  "r \<notin> set indices \<Longrightarrow> map_of (swapped (enumerate 0 indices)) r = None"
  using map_of_zip_is_None [of indices "[0..<length indices]" r]
  by (simp add: swapped_enumerate)

lemma inflateZeroes_spec:
  assumes d: "distinct indices" and b: "\<forall>x\<in>set indices. x < n"
      and m: "length indices \<le> length matrix"
      and mr: "\<forall>i<length indices. length indices \<le> length (matrix ! i)"
  shows "\<exists>out. inflateZeroes matrix indices n = Returns out
           \<and> length out = n \<and> (\<forall>r<n. length (out ! r) = n)
           \<and> (\<forall>i<length indices. \<forall>j<length indices.
                 out ! (indices ! i) ! (indices ! j) = matrix ! i ! j)
           \<and> (\<forall>r<n. \<forall>k<n. r \<notin> set indices \<or> k \<notin> set indices \<longrightarrow> out ! r ! k = 0)"
proof -
  let ?E = "enumerate 0 indices"
  have E: "\<forall>p\<in>set ?E. fst p < length indices \<and> snd p = indices ! fst p"
    by (auto simp: in_set_enumerate_eq)
  have 1: "\<forall>p\<in>set ?E. fst p < length matrix \<and> snd p < n
              \<and> (\<forall>q\<in>set ?E. fst q < length (matrix ! fst p))"
  proof
    fix p assume p: "p \<in> set ?E"
    with E have pi: "fst p < length indices" and ps: "snd p = indices ! fst p" by auto
    from pi m have "fst p < length matrix" by simp
    moreover from pi ps b have "snd p < n" by simp
    moreover have "\<forall>q\<in>set ?E. fst q < length (matrix ! fst p)"
    proof
      fix q assume "q \<in> set ?E"
      with E have "fst q < length indices" by auto
      with mr pi show "fst q < length (matrix ! fst p)" by fastforce
    qed
    ultimately show "fst p < length matrix \<and> snd p < n
              \<and> (\<forall>q\<in>set ?E. fst q < length (matrix ! fst p))" by simp
  qed
  have 2: "\<forall>q\<in>set ?E. snd q < n" using 1 by simp
  have 3: "length (replicate n (replicate n (0::real))) = n" by simp
  have 4: "\<forall>r<n. length (replicate n (replicate n (0::real)) ! r) = n" by simp
  have 5: "distinct (map snd ?E)" using d by (simp add: enumerate_eq_zip)
  from inflateZeroes_rows_spec [OF 1 2 d 3 4 5]
  obtain out where out: "inflateZeroes matrix indices n = Returns out"
    "length out = n" "\<forall>r<n. length (out ! r) = n"
    and cell: "\<forall>r<n. \<forall>k<n. out ! r ! k =
                 (case map_of (swapped ?E) r of
                    Some i \<Rightarrow>
                      (case map_of (swapped ?E) k of
                         Some j \<Rightarrow> matrix ! i ! j
                       | None \<Rightarrow> replicate n (replicate n 0) ! r ! k)
                  | None \<Rightarrow> replicate n (replicate n 0) ! r ! k)"
    unfolding inflateZeroes_def by blast
  have a: "\<forall>i<length indices. \<forall>j<length indices.
                 out ! (indices ! i) ! (indices ! j) = matrix ! i ! j"
  proof (intro allI impI)
    fix i j assume i: "i < length indices" and j: "j < length indices"
    with b have "indices ! i < n" "indices ! j < n" by simp_all
    with cell show "out ! (indices ! i) ! (indices ! j) = matrix ! i ! j"
      by (simp add: map_of_swapped_enumerate_Some [OF d i] map_of_swapped_enumerate_Some [OF d j])
  qed
  have z: "\<forall>r<n. \<forall>k<n. r \<notin> set indices \<or> k \<notin> set indices \<longrightarrow> out ! r ! k = 0"
  proof (intro allI impI)
    fix r k assume r: "r < n" and k: "k < n" and "r \<notin> set indices \<or> k \<notin> set indices"
    then show "out ! r ! k = 0"
      using cell map_of_swapped_enumerate_None
      by (auto split: option.splits)
  qed
  from out a z show ?thesis by blast
qed


lemma deflateZeroes_Returns_survivors:
  assumes "deflateZeroes points = Returns (deflated, indices)"
  shows "indices = survivors points \<and> deflated = map (\<lambda>k. points ! k) (survivors points)"
proof -
  have "\<forall>p\<in>set points. zeroPoint p \<noteq> Panics"
  proof (rule ccontr)
    assume "\<not> (\<forall>p\<in>set points. zeroPoint p \<noteq> Panics)"
    then have "\<exists>p\<in>set points. zeroPoint p = Panics" by simp
    then have "deflateZeroes points = Panics"
      unfolding deflateZeroes_def by (rule deflateZeroes_loop_Panics)
    with assms show False by simp
  qed
  from deflateZeroes_Returns [OF this] assms show ?thesis by simp
qed

text \<open>
  The round trip, wherever the removal returns. For every point list on which
  \<open>deflateZeroes\<close> returns (every list without the one-coordinate point \<open>[0]\<close>;
  all-zero and all-valid lists are among them) and every square matrix of the
  deflated size, \<open>inflateZeroes\<close> on the returned indices and the original length
  returns a square matrix of the original size; its cell at (\<open>indices[i]\<close>,
  \<open>indices[j]\<close>) is the cell (\<open>i\<close>, \<open>j\<close>) of the given matrix, and every cell in the
  row or in the column of a removed point is zero.
\<close>

lemma inflateZeroes_deflateZeroes:
  assumes df: "deflateZeroes points = Returns (deflated, indices)"
      and sq: "length matrix = length deflated" "\<forall>r\<in>set matrix. length r = length deflated"
  shows "\<exists>inflated. inflateZeroes matrix indices (length points) = Returns inflated
           \<and> length inflated = length points
           \<and> (\<forall>r\<in>set inflated. length r = length points)
           \<and> (\<forall>i<length indices. \<forall>j<length indices.
                 inflated ! (indices ! i) ! (indices ! j) = matrix ! i ! j)
           \<and> (\<forall>r<length points. \<forall>k<length points.
                 r \<notin> set indices \<or> k \<notin> set indices \<longrightarrow> inflated ! r ! k = 0)"
proof -
  from deflateZeroes_Returns_survivors [OF df]
  have ix: "indices = survivors points" and dl: "length deflated = length indices" by simp_all
  have d: "distinct indices" by (simp add: ix survivors_def)
  have b: "\<forall>x\<in>set indices. x < length points" by (simp add: ix survivors_def)
  have m: "length indices \<le> length matrix" using sq(1) dl by simp
  have mr: "\<forall>i<length indices. length indices \<le> length (matrix ! i)"
    using sq dl by simp
  from inflateZeroes_spec [OF d b m mr]
  obtain out where out: "inflateZeroes matrix indices (length points) = Returns out"
    "length out = length points" "\<forall>r<length points. length (out ! r) = length points"
    "\<forall>i<length indices. \<forall>j<length indices. out ! (indices ! i) ! (indices ! j) = matrix ! i ! j"
    "\<forall>r<length points. \<forall>k<length points. r \<notin> set indices \<or> k \<notin> set indices \<longrightarrow> out ! r ! k = 0"
    by blast
  from out(2,3) have "\<forall>r\<in>set out. length r = length points"
    by (auto simp: in_set_conv_nth)
  with out show ?thesis by blast
qed


lemma inflateZeroes_deflateZeroes_example:
  "deflateZeroes [[0, 0], [1, 2], [], [3, 4]] = Returns ([[1, 2], [3, 4]], [1, 3])
   \<and> inflateZeroes [[5, 6], [7, 8]] [1, 3] 4
       = Returns [[0, 0, 0, 0], [0, 5, 0, 6], [0, 0, 0, 0], [0, 7, 0, 8]]
   \<and> deflateZeroes [[0, 0], []] = Returns ([], [])
   \<and> inflateZeroes [] [] 2 = Returns [[0, 0], [0, 0]]"
proof -
  have d1: "deflateZeroes [[0, 0], [1, 2], [], [3, 4]] = Returns ([[1, 2], [3, 4]], [1, 3])"
    by code_simp
  have d2: "deflateZeroes [[0, 0], []] = Returns ([], [])"
    by code_simp
  have e1: "inflateZeroes [[5, 6], [7, 8]] [1, 3] 4
       = Returns [[0, 0, 0, 0], [0, 5, 0, 6], [0, 0, 0, 0], [0, 7, 0, 8]]"
    by code_simp
  have e2: "inflateZeroes [] [] 2 = Returns [[0, 0], [0, 0]]"
    by code_simp
  from inflateZeroes_deflateZeroes [OF d1, of "[[5, 6], [7, 8]]"]
       inflateZeroes_deflateZeroes [OF d2, of "[]"] d1 d2 e1 e2
  show ?thesis by simp
qed

text \<open>
  C4. The claim wants the round trip for every point list. On the list that
  holds the single point \<open>[0]\<close>, of one coordinate, the removal panics before
  any index list exists: the zero test reads \<open>point[1]\<close> out of range. The
  sibling \<open>handleUnroutablePoints\<close> treats every point that is not a pair as
  unroutable; \<open>deflateZeroes\<close> misses the case.
\<close>

theorem C4_one_coordinate_point_panics:
  "bind (deflateZeroes [[0]])
     (\<lambda>(deflated, indices). inflateZeroes [] indices (length [[0 :: float64]]))
   = Panics"
  by code_simp

section \<open>The polyline call\<close>

lemma decodedSteps_Cons:
  "DecodeCoords L (StepGeometry st) = Inr cs \<Longrightarrow> decodedSteps L (st # sts) = cs @ decodedSteps L sts"
  by (simp add: decodedSteps_def)

lemma Polyline_steps_spec:
  assumes "i < length dl" and "\<forall>st\<in>set sts. decodes L st"
  shows "Polyline_steps L i sts dl = Returns (dl[i := dl ! i @ decodedSteps L sts])"
  using assms
proof (induction sts arbitrary: dl)
  case Nil
  then show ?case by (simp add: decodedSteps_def)
next
  case (Cons st sts)
  from Cons.prems(2) obtain cs where cs: "DecodeCoords L (StepGeometry st) = Inr cs"
    by (auto simp: decodes_def split: sum.splits)
  from Cons.prems have "Polyline_steps L i sts (dl[i := dl ! i @ cs])
      = Returns ((dl[i := dl ! i @ cs])[i := (dl[i := dl ! i @ cs]) ! i @ decodedSteps L sts])"
    by (intro Cons.IH) simp_all
  with Cons.prems(1) cs show ?case
    by (simp add: decodedSteps_Cons [OF cs])
qed

lemma Polyline_legs_spec:
  assumes "length legs \<le> k" and "\<forall>leg\<in>set legs. \<forall>st\<in>set (Steps leg). decodes L st"
  shows "Polyline_legs L (length done) legs (done @ replicate k [])
       = Returns (done @ map (\<lambda>leg. decodedSteps L (Steps leg)) legs @ replicate (k - length legs) [])"
  using assms
proof (induction legs arbitrary: "done" k)
  case Nil
  then show ?case by simp
next
  case (Cons leg legs)
  from Cons.prems(1) obtain k' where k: "k = Suc k'" and k': "length legs \<le> k'"
    by (cases k) auto
  have st: "Polyline_steps L (length done) (Steps leg) (done @ replicate k [])
        = Returns ((done @ [decodedSteps L (Steps leg)]) @ replicate k' [])"
    using Cons.prems(2) by (subst Polyline_steps_spec) (simp_all add: k nth_append list_update_append)
  have "Polyline_legs L (length (done @ [decodedSteps L (Steps leg)])) legs
          ((done @ [decodedSteps L (Steps leg)]) @ replicate k' [])
       = Returns ((done @ [decodedSteps L (Steps leg)])
                  @ map (\<lambda>leg. decodedSteps L (Steps leg)) legs @ replicate (k' - length legs) [])"
    using Cons.prems(2) k' by (intro Cons.IH) simp_all
  with st show ?case by (simp add: k)
qed

text \<open>
  C8. On an empty point list \<open>Polyline\<close> fails with an error and leaves the client
  and the number of transport calls as they were. On a non-empty point list (of
  two points or more in particular) with a well-formed \<open>Ok\<close> response, that is:
  the path is built, the GET returns a body, the body decodes to a response with
  the code \<open>Ok\<close> and a first route of at most \<open>len(points) - 1\<close> legs, and every
  step geometry decodes, \<open>Polyline\<close> returns the geometry of the first route
  unchanged and exactly \<open>len(points) - 1\<close> leg polylines, the polyline of a leg
  being the encoding of the coordinates of its steps.
\<close>

theorem C8_Polyline:
  "Polyline L c calls [] = ((c, calls), Fails (OtherError ''cannot create polyline for empty points''))
   \<and> (points \<noteq> []
        \<and> getPath L RouteEndpoint (pointsParameter L points) = Returns path0
        \<and> get L c calls (path0 @ ''?overview=simplified&steps=true&annotations=false''
                                @ ''&continue_straight=false'') = (s, Returns body)
        \<and> Unmarshal_route L body = Inr routeResp
        \<and> RouteCode routeResp = ''Ok''
        \<and> Routes routeResp = route # others
        \<and> length (Legs route) \<le> length points - 1
        \<and> (\<forall>leg\<in>set (Legs route). \<forall>st\<in>set (Steps leg). decodes L st)
      \<longrightarrow> (\<exists>legs. Polyline L c calls points = (s, Returns (Geometry route, legs))
              \<and> length legs = length points - 1
              \<and> (\<forall>i<length (Legs route).
                    legs ! i = EncodeCoords L (decodedSteps L (Steps (Legs route ! i))))))"
proof (intro conjI impI)
  show "Polyline L c calls [] = ((c, calls), Fails (OtherError ''cannot create polyline for empty points''))"
    by (simp add: Polyline_def)
next
  assume h: "points \<noteq> []
        \<and> getPath L RouteEndpoint (pointsParameter L points) = Returns path0
        \<and> get L c calls (path0 @ ''?overview=simplified&steps=true&annotations=false''
                                @ ''&continue_straight=false'') = (s, Returns body)
        \<and> Unmarshal_route L body = Inr routeResp
        \<and> RouteCode routeResp = ''Ok''
        \<and> Routes routeResp = route # others
        \<and> length (Legs route) \<le> length points - 1
        \<and> (\<forall>leg\<in>set (Legs route). \<forall>st\<in>set (Steps leg). decodes L st)"
  define legs where "legs = map (EncodeCoords L)
     (map (\<lambda>leg. decodedSteps L (Steps leg)) (Legs route)
        @ replicate (length points - 1 - length (Legs route)) [])"
  from h have "Polyline_legs L (length ([] :: float64 list list list)) (Legs route) ([] @ replicate (length points - 1) [])
      = Returns ([] @ map (\<lambda>leg. decodedSteps L (Steps leg)) (Legs route)
                  @ replicate (length points - 1 - length (Legs route)) [])"
    by (intro Polyline_legs_spec) simp_all
  then have d: "Polyline_decoded L points routeResp = Returns (Geometry route, legs)"
    using h by (simp add: Polyline_decoded_def legs_def)
  have p: "Polyline L c calls points = (s, Returns (Geometry route, legs))"
    using h d by (simp add: Polyline_def)
  from h have "length (Legs route) \<le> length points - 1" by simp
  then have l: "length legs = length points - 1" by (simp add: legs_def)
  have "\<forall>i<length (Legs route).
                    legs ! i = EncodeCoords L (decodedSteps L (Steps (Legs route ! i)))"
    by (simp add: legs_def nth_append)
  with p l show "\<exists>legs. Polyline L c calls points = (s, Returns (Geometry route, legs))
              \<and> length legs = length points - 1
              \<and> (\<forall>i<length (Legs route).
                    legs ! i = EncodeCoords L (decodedSteps L (Steps (Legs route ! i))))"
    by blast
qed



theorem C8_Polyline_witness:
  "Polyline exampleLib (NewClient ''h'') 0 []
     = ((NewClient ''h'', 0), Fails (OtherError ''cannot create polyline for empty points''))
   \<and> Polyline exampleLib (NewClient ''h'') 0 [[1, 1], [2, 2]]
     = ((NewClient ''h'', 1), Returns (''abc'', [''abc'']))"
proof -
  let ?path = "''/route/v1/driving/1.000000,1.000000;2.000000,2.000000''"
  have g: "getPath exampleLib RouteEndpoint (pointsParameter exampleLib [[1, 1], [2, 2]])
             = Returns ?path"
    by code_simp
  have f: "get exampleLib (NewClient ''h'') 0
             (?path @ ''?overview=simplified&steps=true&annotations=false''
                    @ ''&continue_straight=false'')
             = ((NewClient ''h'', 1), Returns ''ok'')"
    by code_simp
  have u: "Unmarshal_route exampleLib ''ok'' = Inr exampleRoute"
    by (simp add: exampleLib_def)
  have r: "Routes exampleRoute = hd (Routes exampleRoute) # []"
    by (simp add: exampleRoute_def)
  have k: "RouteCode exampleRoute = ''Ok''"
    by (simp add: exampleRoute_def)
  have l: "length (Legs (hd (Routes exampleRoute))) \<le> length [[1, 1], [2, 2 :: real]] - 1"
    by (simp add: exampleRoute_def)
  have d: "\<forall>leg\<in>set (Legs (hd (Routes exampleRoute))). \<forall>st\<in>set (Steps leg). decodes exampleLib st"
    by (simp add: exampleRoute_def decodes_def exampleLib_def)
  have e: "EncodeCoords exampleLib (decodedSteps exampleLib (Steps (Legs (hd (Routes exampleRoute)) ! 0))) = ''abc''"
    by code_simp
  have gm: "Geometry (hd (Routes exampleRoute)) = ''abc''"
    by (simp add: exampleRoute_def)
  from C8_Polyline [of exampleLib "NewClient ''h''" 0 "[[1, 1], [2, 2]]" ?path
               "(NewClient ''h'', 1)" "''ok''" exampleRoute "hd (Routes exampleRoute)" "[]"]
       g f u r k l d
  obtain legs where
    "Polyline exampleLib (NewClient ''h'') 0 []
     = ((NewClient ''h'', 0), Fails (OtherError ''cannot create polyline for empty points''))"
    "Polyline exampleLib (NewClient ''h'') 0 [[1, 1], [2, 2]]
     = ((NewClient ''h'', 1), Returns (Geometry (hd (Routes exampleRoute)), legs))"
    "length legs = 1" "legs ! 0 = EncodeCoords exampleLib (decodedSteps exampleLib (Steps (Legs (hd (Routes exampleRoute)) ! 0)))"
    by (auto simp: exampleRoute_def)
  moreover from this(3,4) e have "legs = [''abc'']"
    by (cases legs) auto
  ultimately show ?thesis using gm by simp
qed

section \<open>Three GETs of the same URI\<close>

lemma get_fetch_disabled:
  assumes "\<not> useCache c"
      and "url_Parse L (host c) = Inr h" "url_Parse L uri = Inr u"
      and "NewRequest L (ResolveReference L h u) = Inr req"
  shows "fst (get_fetch L c calls uri key) = (c, calls + 1)"
  using assms by (simp add: get_fetch_def split: sum.splits option.splits)

lemma get_disabled:
  assumes "\<not> useCache c"
      and "url_Parse L (host c) = Inr h" "url_Parse L uri = Inr u"
      and "NewRequest L (ResolveReference L h u) = Inr req"
  shows "fst (get L c calls uri) = (c, calls + 1)"
  using assms get_fetch_disabled [OF assms] by (simp add: get_def)

lemma get_miss:
  assumes "useCache c" "cache c = Some l" "map_of (entries l) (sha1_hex L uri) = None"
      and "url_Parse L (host c) = Inr h" "url_Parse L uri = Inr u"
      and "NewRequest L (ResolveReference L h u) = Inr req"
      and "Do L calls req = Inr resp" "StatusCode resp = 200" "Body resp = Inr data"
  shows "get L c calls uri
       = ((c\<lparr>cache := Some (lru_Add l (sha1_hex L uri) data)\<rparr>, calls + 1),
          (case Close resp of Some e \<Rightarrow> Fails e | None \<Rightarrow> Returns data))"
  using assms by (simp add: get_def get_fetch_def lru_Get_def split: option.splits)

lemma get_hit:
  assumes "useCache c" "cache c = Some l" "map_of (entries l) (sha1_hex L uri) = Some data"
  shows "get L c calls uri
       = ((c\<lparr>cache := Some (fst (lru_Get l (sha1_hex L uri)))\<rparr>, calls), Returns data)"
  using assms by (simp add: get_def lru_Get_def)

lemma lru_Add_holds:
  "capacity l \<noteq> 0 \<Longrightarrow> map_of (entries (lru_Add l k v)) k = Some v"
  by (cases "capacity l") (simp_all add: lru_Add_def)

lemma lru_Get_holds:
  "map_of (entries l) k = Some v \<Longrightarrow> map_of (entries (fst (lru_Get l k))) k = Some v"
  by (simp add: lru_Get_def)

text \<open>
  C6, as stated for every URI, fails. On a client with a cache of capacity 100
  and a backend that answers with status 500, nothing is cached and the three
  calls make three transport calls. On a client without cache and a URI that
  \<open>url.Parse\<close> refuses, every call returns the error before the transport is
  reached: no transport call is made.
\<close>

theorem C6_failed_fetch_counterexample:
  "snd (fst (GetThrice
       (exampleLib\<lparr>Do := (\<lambda>n s. Inr \<lparr>StatusCode = 500, Body = Inr ''down'', Close = None\<rparr>)\<rparr>)
       (DefaultClient ''h'' True) 0 ''/x'')) = 3
   \<and> snd (fst (GetThrice
       (exampleLib\<lparr>url_Parse := (\<lambda>s. if s = ''%zz'' then Inl (OtherError ''invalid URL escape'')
                                       else Inr s)\<rparr>)
       (DefaultClient ''h'' False) 0 ''%zz'')) = 0"
  by code_simp

text \<open>
  C6, amended. Let the request be buildable: the host and the URI parse and the
  request is made. On a client with caching enabled, whose cache has a non-zero
  capacity and does not hold the URI yet, and whose first fetch succeeds (status
  200, body read), three \<open>Get\<close> of the URI make exactly one transport call, and
  the second and the third call return the bytes of that fetch from the cache
  (so does the first, unless closing the body fails). On a client with caching
  disabled the three calls make exactly three transport calls and leave the
  client as it was: nothing is stored.
\<close>

theorem C6_GetThrice:
  assumes build: "url_Parse L (host c) = Inr h" "url_Parse L uri = Inr u"
      "NewRequest L (ResolveReference L h u) = Inr req"
  shows "(useCache c \<and> cache c = Some l \<and> capacity l \<noteq> 0
            \<and> map_of (entries l) (sha1_hex L uri) = None
            \<and> Do L calls req = Inr resp \<and> StatusCode resp = 200 \<and> Body resp = Inr data
          \<longrightarrow> (\<exists>c' r1. GetThrice L c calls uri = ((c', calls + 1), [r1, Returns data, Returns data])
                  \<and> (Close resp = None \<longrightarrow> r1 = Returns data)))
       \<and> (\<not> useCache c \<longrightarrow> (\<exists>rs. GetThrice L c calls uri = ((c, calls + 3), rs)))"
proof (intro conjI impI)
  assume h: "useCache c \<and> cache c = Some l \<and> capacity l \<noteq> 0
            \<and> map_of (entries l) (sha1_hex L uri) = None
            \<and> Do L calls req = Inr resp \<and> StatusCode resp = 200 \<and> Body resp = Inr data"
  let ?k = "sha1_hex L uri"
  define l1 where "l1 = lru_Add l ?k data"
  define c1 where "c1 = c\<lparr>cache := Some l1\<rparr>"
  define l2 where "l2 = fst (lru_Get l1 ?k)"
  define c2 where "c2 = c1\<lparr>cache := Some l2\<rparr>"
  define l3 where "l3 = fst (lru_Get l2 ?k)"
  define c3 where "c3 = c2\<lparr>cache := Some l3\<rparr>"
  define r1 where "r1 = (case Close resp of Some e \<Rightarrow> Fails e | None \<Rightarrow> Returns data)"
  from h have uc: "useCache c" and cc: "cache c = Some l" and cap: "capacity l \<noteq> 0"
    and cold: "map_of (entries l) ?k = None"
    and d: "Do L calls req = Inr resp" and st: "StatusCode resp = 200"
    and bd: "Body resp = Inr data"
    by simp_all
  have g1: "get L c calls uri = ((c1, calls + 1), r1)"
    unfolding c1_def l1_def r1_def by (rule get_miss [OF uc cc cold build d st bd])
  from cap have m1: "map_of (entries l1) ?k = Some data"
    unfolding l1_def by (rule lru_Add_holds)
  from uc have u1: "useCache c1" "cache c1 = Some l1" by (simp_all add: c1_def)
  from u1 m1 have g2: "get L c1 (calls + 1) uri = ((c2, calls + 1), Returns data)"
    unfolding c2_def l2_def by (rule get_hit)
  from m1 have m2: "map_of (entries l2) ?k = Some data"
    unfolding l2_def by (rule lru_Get_holds)
  from u1 have u2: "useCache c2" "cache c2 = Some l2" by (simp_all add: c2_def)
  from u2 m2 have g3: "get L c2 (calls + 1) uri = ((c3, calls + 1), Returns data)"
    unfolding c3_def l3_def by (rule get_hit)
  from g1 g2 g3 have "GetThrice L c calls uri = ((c3, calls + 1), [r1, Returns data, Returns data])"
    by (simp add: GetThrice_def Get_def)
  moreover have "Close resp = None \<longrightarrow> r1 = Returns data" by (simp add: r1_def)
  ultimately have "GetThrice L c calls uri = ((c3, calls + 1), [r1, Returns data, Returns data])
                  \<and> (Close resp = None \<longrightarrow> r1 = Returns data)"
    by simp
  then show "\<exists>c' r1. GetThrice L c calls uri = ((c', calls + 1), [r1, Returns data, Returns data])
                  \<and> (Close resp = None \<longrightarrow> r1 = Returns data)"
    by (intro exI)
next
  assume n: "\<not> useCache c"
  obtain r1 where g1: "get L c calls uri = ((c, calls + 1), r1)"
    using get_disabled [OF n build, of calls] by (cases "get L c calls uri") auto
  obtain r2 where g2: "get L c (calls + 1) uri = ((c, calls + 2), r2)"
    using get_disabled [OF n build, of "calls + 1"] by (cases "get L c (calls + 1) uri") auto
  obtain r3 where g3: "get L c (calls + 2) uri = ((c, calls + 3), r3)"
    using get_disabled [OF n build, of "calls + 2"] by (cases "get L c (calls + 2) uri") auto
  from g1 g2 g3 have "GetThrice L c calls uri = ((c, calls + 3), [r1, r2, r3])"
    by (simp add: GetThrice_def Get_def)
  then show "\<exists>rs. GetThrice L c calls uri = ((c, calls + 3), rs)" by blast
qed


theorem C6_GetThrice_witness:
  "GetThrice exampleLib (DefaultClient ''h'' True) 0 ''/x''
     = (((DefaultClient ''h'' True)\<lparr>cache := Some \<lparr>capacity = 100, entries = [(''/x'', ''ok'')]\<rparr>\<rparr>, 1),
        [Returns ''ok'', Returns ''ok'', Returns ''ok''])
   \<and> GetThrice exampleLib (DefaultClient ''h'' False) 0 ''/x''
     = ((DefaultClient ''h'' False, 3), [Returns ''ok'', Returns ''ok'', Returns ''ok''])"
proof -
  let ?resp = "\<lparr>StatusCode = 200, Body = Inr ''ok'', Close = None\<rparr>"
  let ?l = "\<lparr>capacity = 100, entries = []\<rparr>"
  have e1: "GetThrice exampleLib (DefaultClient ''h'' True) 0 ''/x''
     = (((DefaultClient ''h'' True)\<lparr>cache := Some \<lparr>capacity = 100, entries = [(''/x'', ''ok'')]\<rparr>\<rparr>, 1),
        [Returns ''ok'', Returns ''ok'', Returns ''ok''])"
    by code_simp
  have e2: "GetThrice exampleLib (DefaultClient ''h'' False) 0 ''/x''
     = ((DefaultClient ''h'' False, 3), [Returns ''ok'', Returns ''ok'', Returns ''ok''])"
    by code_simp
  have b1: "url_Parse exampleLib (host (DefaultClient ''h'' True)) = Inr ''h''"
    "url_Parse exampleLib (host (DefaultClient ''h'' False)) = Inr ''h''"
    "url_Parse exampleLib ''/x'' = Inr ''/x''"
    "NewRequest exampleLib (ResolveReference exampleLib ''h'' ''/x'') = Inr ''h/x''"
    by (simp_all add: exampleLib_def DefaultClient_def WithCache_def NewClient_def)
  have h1: "useCache (DefaultClient ''h'' True) \<and> cache (DefaultClient ''h'' True) = Some ?l
      \<and> capacity ?l \<noteq> 0 \<and> map_of (entries ?l) (sha1_hex exampleLib ''/x'') = None
      \<and> Do exampleLib 0 ''h/x'' = Inr ?resp \<and> StatusCode ?resp = 200 \<and> Body ?resp = Inr ''ok''"
    by (simp add: exampleLib_def DefaultClient_def WithCache_def NewClient_def lru_New_def)
  have h2: "\<not> useCache (DefaultClient ''h'' False)"
    by (simp add: DefaultClient_def NewClient_def)
  from C6_GetThrice [OF b1(1) b1(3) b1(4), of ?l 0 ?resp "''ok''"] h1
  obtain c' r1 where
    "GetThrice exampleLib (DefaultClient ''h'' True) 0 ''/x''
       = ((c', 0 + 1), [r1, Returns ''ok'', Returns ''ok''])" "r1 = Returns ''ok''"
    by auto
  moreover from C6_GetThrice [OF b1(2) b1(3) b1(4), of ?l 0 ?resp "''ok''"] h2
  obtain rs where "GetThrice exampleLib (DefaultClient ''h'' False) 0 ''/x''
       = ((DefaultClient ''h'' False, 0 + 3), rs)"
    by auto
  ultimately show ?thesis using e1 e2 by simp
qed

end
